theory Spec2Isabelle
  imports Main "HOL-Library.Sublist" "HOL-Library.Multiset"
begin

section \<open>JavaScript values and strings\<close>

text \<open>
  The sources are Google Apps Script (JavaScript).  A JavaScript string is modelled as a
  HOL \<open>string\<close>: every \<open>char\<close> is one code unit below 256, read as Latin-1.  This
  fragment is closed under \<open>trim\<close>, \<open>toLowerCase\<close>, \<open>split\<close> and \<open>join\<close>; strings with
  code units above 255 are outside the model.

  Arguments that the code inspects with \<open>!x\<close>, \<open>typeof x\<close> or \<open>Array.isArray(x)\<close> are values
  of the type \<open>jsval\<close>.  Numbers are the integers below \<open>1e21\<close> in magnitude, which
  \<open>String\<close> prints in plain decimal, and \<open>NaN\<close>; \<open>JObj s\<close> is an
  object without string methods of its own whose conversion \<open>String(o)\<close> yields \<open>s\<close>
  (a plain object gives \<open>[object Object]\<close>, a \<open>Date\<close> its date text).
\<close>

datatype jsval =
    JUndefined
  | JNull
  | JBool bool
  | JNum int
  | JNaN
  | JStr string
  | JArr "jsval list"
  | JObj string

text \<open>
  Exceptions are values.  \<open>TypeError\<close> is what a method call on a value without that
  method raises (\<open>(5).trim()\<close>, \<open>null.id\<close>); \<open>Error m\<close> is \<open>new Error(m)\<close>, thrown by the
  sources or by a collaborator outside them.
\<close>

datatype error = TypeError | Error string

text \<open>\<open>error.message\<close>; the engine's wording for a \<open>TypeError\<close> is not modelled.\<close>

fun error_message :: "error \<Rightarrow> string" where
  "error_message TypeError = ''TypeError''"
| "error_message (Error m) = m"

text \<open>\<open>try { body } catch (error) { handler }\<close>\<close>

definition try_catch :: "error + 'a \<Rightarrow> (error \<Rightarrow> error + 'a) \<Rightarrow> error + 'a" where
  "try_catch body handler = (case body of Inl e \<Rightarrow> handler e | Inr v \<Rightarrow> Inr v)"

text \<open>Sequencing of computations that may raise.\<close>

definition bind_e :: "error + 'a \<Rightarrow> ('a \<Rightarrow> error + 'b) \<Rightarrow> error + 'b" where
  "bind_e m f = (case m of Inl e \<Rightarrow> Inl e | Inr v \<Rightarrow> f v)"

text \<open>\<open>!x\<close> is true exactly for the falsy values.\<close>

fun falsy :: "jsval \<Rightarrow> bool" where
  "falsy JUndefined = True"
| "falsy JNull = True"
| "falsy (JBool b) = (\<not> b)"
| "falsy (JNum n) = (n = 0)"
| "falsy JNaN = True"
| "falsy (JStr s) = (s = [])"
| "falsy (JArr xs) = False"
| "falsy (JObj s) = False"

text \<open>\<open>x || ''\<close>\<close>

definition or_empty :: "jsval \<Rightarrow> jsval" where
  "or_empty x = (if falsy x then JStr [] else x)"

text \<open>
  White space as \<open>String.prototype.trim\<close> and the regular expression class \<open>\s\<close> see it,
  below code unit 256: TAB, LF, VT, FF, CR, SPACE and NO-BREAK SPACE.
\<close>

definition is_ws :: "char \<Rightarrow> bool" where
  "is_ws c = (of_char c \<in> {9, 10, 11, 12, 13, 32, 160 :: nat})"

definition trim :: "string \<Rightarrow> string" where
  "trim s = rev (dropWhile is_ws (rev (dropWhile is_ws s)))"

text \<open>\<open>toLowerCase\<close> on Latin-1: A to Z, and the letters from 0xC0 to 0xDE but the
  multiplication sign 0xD7, move up by 32.\<close>

definition lower_char :: "char \<Rightarrow> char" where
  "lower_char c =
     (let n = (of_char c :: nat)
      in if (65 \<le> n \<and> n \<le> 90) \<or> (192 \<le> n \<and> n \<le> 222 \<and> n \<noteq> 215)
         then char_of (n + 32) else c)"

definition toLowerCase :: "string \<Rightarrow> string" where
  "toLowerCase s = map lower_char s"

text \<open>\<open>s.split('|')\<close>: never empty, one more piece than there are separators.\<close>

fun split_pipe :: "string \<Rightarrow> string list" where
  "split_pipe [] = [[]]"
| "split_pipe (c # cs) =
     (if c = CHR ''|'' then [] # split_pipe cs
      else (case split_pipe cs of [] \<Rightarrow> [[c]] | p # ps \<Rightarrow> (c # p) # ps))"

text \<open>\<open>items.join(sep)\<close> on an array of strings.\<close>

fun join_sep :: "string \<Rightarrow> string list \<Rightarrow> string" where
  "join_sep sep [] = []"
| "join_sep sep [x] = x"
| "join_sep sep (x # y # ys) = x @ sep @ join_sep sep (y # ys)"

text \<open>\<open>haystack.includes(needle)\<close> on strings.\<close>

fun starts_with :: "string \<Rightarrow> string \<Rightarrow> bool" where
  "starts_with s [] = True"
| "starts_with [] (p # ps) = False"
| "starts_with (c # cs) (p # ps) = (c = p \<and> starts_with cs ps)"

fun includes_str :: "string \<Rightarrow> string \<Rightarrow> bool" where
  "includes_str [] needle = (needle = [])"
| "includes_str (c # cs) needle = (starts_with (c # cs) needle \<or> includes_str cs needle)"

text \<open>The decimal numeral of a natural number, as \<open>String(n)\<close> and template literals
  print it.\<close>

fun dec_nat :: "nat \<Rightarrow> string" where
  "dec_nat n =
     (if n < 10 then [char_of (48 + n)]
      else dec_nat (n div 10) @ [char_of (48 + n mod 10)])"

declare dec_nat.simps [simp del]

text \<open>
  \<open>String(x)\<close>.  An array prints its elements separated by commas, with \<open>null\<close> and
  \<open>undefined\<close> elements printed as nothing.
\<close>

fun js_String :: "jsval \<Rightarrow> string" where
  "js_String JUndefined = ''undefined''"
| "js_String JNull = ''null''"
| "js_String (JBool b) = (if b then ''true'' else ''false'')"
| "js_String (JNum n) = (if n < 0 then CHR ''-'' # dec_nat (nat (- n)) else dec_nat (nat n))"
| "js_String JNaN = ''NaN''"
| "js_String (JStr s) = s"
| "js_String (JArr xs) =
     join_sep '','' (map (\<lambda>x. if x = JUndefined \<or> x = JNull then [] else js_String x) xs)"
| "js_String (JObj s) = s"

text \<open>\<open>typeof x === 'string'\<close> and \<open>Array.isArray(x)\<close>\<close>

fun is_string :: "jsval \<Rightarrow> bool" where
  "is_string (JStr s) = True"
| "is_string v = False"

fun is_array :: "jsval \<Rightarrow> bool" where
  "is_array (JArr xs) = True"
| "is_array v = False"

text \<open>The method calls \<open>x.trim()\<close> and \<open>x.toLowerCase()\<close>: only a string has them.\<close>

fun js_trim :: "jsval \<Rightarrow> error + string" where
  "js_trim (JStr s) = Inr (trim s)"
| "js_trim v = Inl TypeError"

fun js_toLowerCase :: "jsval \<Rightarrow> error + string" where
  "js_toLowerCase (JStr s) = Inr (toLowerCase s)"
| "js_toLowerCase v = Inl TypeError"

text \<open>\<open>[...new Set(items)]\<close>: the elements in the order of their first occurrence.\<close>

definition set_order :: "'a list \<Rightarrow> 'a list" where
  "set_order xs = fold (\<lambda>x acc. if x \<in> set acc then acc else acc @ [x]) xs []"


section \<open>PipeDelimitedHelpers\<close>

text \<open>\<open>parse(data, trim = true)\<close>, PipeDelimitedHelpers.js lines 15 to 27.\<close>

definition parse :: "jsval \<Rightarrow> bool \<Rightarrow> error + string list" where
  "parse data trm =
     try_catch
       (case data of
          JStr s \<Rightarrow>
            if falsy data then Inr []
            else (let items = split_pipe s
                  in Inr (if trm then filter (\<lambda>item. length item > 0) (map trim items)
                          else items))
        | _ \<Rightarrow> Inr [])
       (\<lambda>e. Inr [])"

text \<open>\<open>stringify(items, trim = true)\<close>, lines 35 to 50.\<close>

definition stringify :: "jsval \<Rightarrow> bool \<Rightarrow> error + string" where
  "stringify items trm =
     try_catch
       (case items of
          JArr xs \<Rightarrow>
            (let processedItems =
                   (if trm then filter (\<lambda>item. length item > 0)
                                  (map (\<lambda>item. trim (js_String item)) xs)
                    else map js_String xs)
             in Inr (join_sep ''|'' processedItems))
        | _ \<Rightarrow> Inr [])
       (\<lambda>e. Inr [])"

text \<open>An array of strings handed from one helper to the next.\<close>

definition str_array :: "string list \<Rightarrow> jsval" where
  "str_array items = JArr (map JStr items)"

text \<open>\<open>addItem(data, newItem, allowDuplicates = false)\<close>, lines 59 to 78.\<close>

definition addItem :: "jsval \<Rightarrow> jsval \<Rightarrow> bool \<Rightarrow> error + jsval" where
  "addItem data newItem allowDuplicates =
     try_catch
       (if falsy newItem \<or> \<not> is_string newItem then Inr (or_empty data)
        else
          bind_e (parse data True) (\<lambda>items.
          bind_e (js_trim newItem) (\<lambda>trimmedNewItem.
            if \<not> allowDuplicates \<and> trimmedNewItem \<in> set items then Inr data
            else bind_e (stringify (str_array (items @ [trimmedNewItem])) True)
                   (\<lambda>r. Inr (JStr r)))))
       (\<lambda>e. Inr (or_empty data))"

text \<open>\<open>removeItem(data, itemToRemove)\<close>, lines 86 to 101.\<close>

definition removeItem :: "jsval \<Rightarrow> jsval \<Rightarrow> error + jsval" where
  "removeItem data itemToRemove =
     try_catch
       (if falsy data \<or> falsy itemToRemove then Inr (or_empty data)
        else
          bind_e (parse data True) (\<lambda>items.
          bind_e (js_trim itemToRemove) (\<lambda>trimmedItem.
          bind_e (stringify (str_array (filter (\<lambda>item. item \<noteq> trimmedItem) items)) True)
            (\<lambda>r. Inr (JStr r)))))
       (\<lambda>e. Inr (or_empty data))"

text \<open>\<open>updateItem(data, oldItem, newItem)\<close>, lines 110 to 129.\<close>

definition updateItem :: "jsval \<Rightarrow> jsval \<Rightarrow> jsval \<Rightarrow> error + jsval" where
  "updateItem data oldItem newItem =
     try_catch
       (if falsy data \<or> falsy oldItem \<or> falsy newItem then Inr (or_empty data)
        else
          bind_e (parse data True) (\<lambda>items.
          bind_e (js_trim oldItem) (\<lambda>trimmedOldItem.
          bind_e (js_trim newItem) (\<lambda>trimmedNewItem.
          bind_e (stringify
                    (str_array (map (\<lambda>item. if item = trimmedOldItem then trimmedNewItem
                                             else item) items)) True)
            (\<lambda>r. Inr (JStr r))))))
       (\<lambda>e. Inr (or_empty data))"

text \<open>
  \<open>reorderItems(data, newOrder)\<close>, lines 137 to 155.  \<open>Array.prototype.includes\<close>
  compares with SameValueZero, so an element of \<open>newOrder\<close> is found among the parsed
  strings exactly when it is a string equal to one of them.
\<close>

definition reorderItems :: "jsval \<Rightarrow> jsval \<Rightarrow> error + jsval" where
  "reorderItems data newOrder =
     try_catch
       (case newOrder of
          JArr order \<Rightarrow>
            if falsy data then Inr (or_empty data)
            else
              bind_e (parse data True) (\<lambda>currentItems.
                let validNewOrder = filter (\<lambda>item. item \<in> JStr ` set currentItems) order;
                    missingItems = filter (\<lambda>item. JStr item \<notin> set order) currentItems;
                    finalOrder = validNewOrder @ map JStr missingItems
                in bind_e (stringify (JArr finalOrder) True) (\<lambda>r. Inr (JStr r)))
        | _ \<Rightarrow> Inr (or_empty data))
       (\<lambda>e. Inr (or_empty data))"

text \<open>\<open>contains(data, item)\<close>, lines 163 to 175.\<close>

definition contains :: "jsval \<Rightarrow> jsval \<Rightarrow> error + bool" where
  "contains data item =
     try_catch
       (if falsy data \<or> falsy item then Inr False
        else
          bind_e (parse data True) (\<lambda>items.
          bind_e (js_trim item) (\<lambda>t. Inr (t \<in> set items))))
       (\<lambda>e. Inr False)"

text \<open>\<open>getCount(data)\<close>, lines 182 to 194.\<close>

definition getCount :: "jsval \<Rightarrow> error + nat" where
  "getCount data =
     try_catch
       (if falsy data then Inr 0
        else bind_e (parse data True) (\<lambda>items. Inr (length items)))
       (\<lambda>e. Inr 0)"

text \<open>\<open>merge(dataArray, removeDuplicates = true)\<close>, lines 202 to 226.  The \<open>forEach\<close>
  loop is the recursion \<open>merge_loop\<close> over the array, \<open>allItems\<close> its accumulator.\<close>

fun merge_loop :: "jsval list \<Rightarrow> string list \<Rightarrow> error + string list" where
  "merge_loop [] allItems = Inr allItems"
| "merge_loop (d # ds) allItems =
     (if \<not> falsy d \<and> is_string d
      then bind_e (parse d True) (\<lambda>items. merge_loop ds (allItems @ items))
      else merge_loop ds allItems)"

definition merge :: "jsval \<Rightarrow> bool \<Rightarrow> error + string" where
  "merge dataArray removeDuplicates =
     try_catch
       (case dataArray of
          JArr ds \<Rightarrow>
            bind_e (merge_loop ds []) (\<lambda>allItems.
              stringify (str_array (if removeDuplicates then set_order allItems else allItems))
                True)
        | _ \<Rightarrow> Inr [])
       (\<lambda>e. Inr [])"

text \<open>\<open>validate(data)\<close>, lines 277 to 320.  The two early returns leave
  \<open>uniqueItemCount\<close> out of the report.\<close>

record validation =
  valid :: bool
  itemCount :: nat
  uniqueItemCount :: "nat option"
  issues :: "string list"

definition has_line_break :: "string \<Rightarrow> bool" where
  "has_line_break item =
     (CHR 0x0A \<in> set item \<or> CHR 0x0D \<in> set item \<or> CHR 0x09 \<in> set item)"

definition validate :: "jsval \<Rightarrow> error + validation" where
  "validate data =
     try_catch
       (if falsy data
        then Inr \<lparr>valid = True, itemCount = 0, uniqueItemCount = None, issues = []\<rparr>
        else if \<not> is_string data
        then Inr \<lparr>valid = False, itemCount = 0, uniqueItemCount = None,
                  issues = [''Data must be a string'']\<rparr>
        else
          bind_e (parse data True) (\<lambda>items.
            let emptyItems = filter (\<lambda>item. trim item = []) items;
                issues1 = (if length emptyItems > 0
                           then [''Found '' @ dec_nat (length emptyItems) @ '' empty items'']
                           else []);
                uniqueItems = set_order items;
                issues2 = (if length uniqueItems \<noteq> length items
                           then issues1 @ [''Found ''
                                  @ dec_nat (length items - length uniqueItems)
                                  @ '' duplicate items'']
                           else issues1);
                problematicItems = filter has_line_break items;
                issues3 = (if length problematicItems > 0
                           then issues2 @ [''Found '' @ dec_nat (length problematicItems)
                                  @ '' items with line breaks or tabs'']
                           else issues2)
            in Inr \<lparr>valid = (length issues3 = 0), itemCount = length items,
                     uniqueItemCount = Some (length uniqueItems), issues = issues3\<rparr>))
       (\<lambda>e. Inr \<lparr>valid = False, itemCount = 0, uniqueItemCount = None,
                  issues = [''Validation error: '' @ error_message e]\<rparr>)"


text \<open>\<open>clean(data, options = {})\<close>, lines 328 to 367.  The record holds the options
  after the defaults (all true) were merged with the caller's.\<close>

record clean_options =
  removeDuplicates :: bool
  removeEmpty :: bool
  trimItems :: bool
  removeLineBreaks :: bool

text \<open>\<open>item.replace(/\s+/g, ' ')\<close>: every maximal run of white space becomes one space.\<close>

function collapse_ws :: "string \<Rightarrow> string" where
  "collapse_ws [] = []"
| "collapse_ws (c # cs) =
     (if is_ws c then CHR '' '' # collapse_ws (dropWhile is_ws cs)
      else c # collapse_ws cs)"
  by pat_completeness auto
termination
  by (relation "measure length") (auto simp: length_dropWhile_le less_Suc_eq_le)

text \<open>\<open>item.replace(/[\n\r\t]/g, ' ')\<close>\<close>

definition line_breaks_to_space :: "string \<Rightarrow> string" where
  "line_breaks_to_space item =
     map (\<lambda>c. if c = CHR 0x0A \<or> c = CHR 0x0D \<or> c = CHR 0x09 then CHR '' '' else c) item"

definition clean :: "jsval \<Rightarrow> clean_options \<Rightarrow> error + jsval" where
  "clean data opts =
     try_catch
       (if falsy data then Inr (JStr [])
        else
          bind_e (parse data (trimItems opts)) (\<lambda>items0.
            let items1 = (if removeEmpty opts
                          then filter (\<lambda>item. length (trim item) > 0) items0 else items0);
                items2 = (if removeLineBreaks opts
                          then map (\<lambda>item. trim (collapse_ws (line_breaks_to_space item)))
                                 items1
                          else items1);
                items3 = (if removeDuplicates opts then set_order items2 else items2)
            in bind_e (stringify (str_array items3) True) (\<lambda>r. Inr (JStr r))))
       (\<lambda>e. Inr (or_empty data))"


section \<open>GoalManagementService\<close>

text \<open>
  \<open>GoalManagementService.addGoal(clientId, goalText, sheetName)\<close>, ConfigurationService.js
  lines 391 to 417.  The functions \<open>getGoals\<close> and \<open>setGoals\<close> are not among the sources;
  their outcomes are parameters: what \<open>getGoals\<close> returns or raises, and what \<open>setGoals\<close>
  raises, if anything.  \<open>logGoalChange\<close> catches its own exceptions.  The result is the
  updated array of goals, which is also what \<open>setGoals\<close> was given to store.
\<close>

definition addGoal :: "jsval \<Rightarrow> error + string list \<Rightarrow> error option \<Rightarrow> error + string list" where
  "addGoal goalText getGoals setGoals =
     try_catch
       (if falsy goalText then Inl (Error ''Goal text cannot be empty'')
        else
          bind_e (js_trim goalText) (\<lambda>t.
            if t = [] then Inl (Error ''Goal text cannot be empty'')
            else
              bind_e getGoals (\<lambda>currentGoals.
              bind_e (js_trim goalText) (\<lambda>trimmedGoal.
                if list_ex (\<lambda>goal. toLowerCase goal = toLowerCase trimmedGoal) currentGoals
                then Inl (Error ''This goal already exists for the client'')
                else (let updatedGoals = currentGoals @ [trimmedGoal]
                      in case setGoals of Some e \<Rightarrow> Inl e | None \<Rightarrow> Inr updatedGoals)))))
       (\<lambda>error. Inl (Error (''Failed to add goal: '' @ error_message error)))"


section \<open>CalendarService: title parsing\<close>

text \<open>
  The regular expressions of \<open>extractClientFromTitle\<close> (CalendarService.js lines 480 to
  512) are modelled by what the engine does with them.  None of them looks behind the
  position it is tried at, so a match attempt is a function of the rest of the string; it
  returns the text after the match.  In each of them a greedy repetition is followed by a
  character that the repetition itself excludes, so giving characters back never opens
  a second way to match and the greedy attempt is the only one.
\<close>

text \<open>\<open>s.replace(re, '')\<close> with a global \<open>re\<close>: scan from the left, drop every match, and
  after an empty match keep one character and go on.\<close>

function replace_all :: "(string \<Rightarrow> string option) \<Rightarrow> string \<Rightarrow> string" where
  "replace_all m [] = []"
| "replace_all m (c # cs) =
     (case m (c # cs) of
        Some r \<Rightarrow> if length r < length (c # cs) then replace_all m r
                  else c # replace_all m cs
      | None \<Rightarrow> c # replace_all m cs)"
  by pat_completeness auto
termination
  by (relation "measure (\<lambda>(m, s). length s)") auto

text \<open>The class \<open>[A-Z0-9]\<close> (this expression has no \<open>i\<close> flag).\<close>

definition is_upper_digit :: "char \<Rightarrow> bool" where
  "is_upper_digit c =
     (let n = (of_char c :: nat) in (65 \<le> n \<and> n \<le> 90) \<or> (48 \<le> n \<and> n \<le> 57))"

text \<open>\<open>/\(([A-Z0-9]+)\)/\<close> tried at the head of the string: the captured group.\<close>

definition match_id_at :: "string \<Rightarrow> string option" where
  "match_id_at s =
     (case s of
        [] \<Rightarrow> None
      | c # rest \<Rightarrow>
          if c = CHR ''(''
          then (let tok = takeWhile is_upper_digit rest;
                    after = dropWhile is_upper_digit rest
                in if tok \<noteq> [] \<and> starts_with after '')'' then Some tok else None)
          else None)"

text \<open>\<open>title.match(/\(([A-Z0-9]+)\)/)\<close>: the leftmost position with a match wins.\<close>

fun find_id :: "string \<Rightarrow> string option" where
  "find_id [] = None"
| "find_id (c # cs) =
     (case match_id_at (c # cs) of Some tok \<Rightarrow> Some tok | None \<Rightarrow> find_id cs)"

definition session_keywords :: "string list" where
  "session_keywords = [''therapy'', ''session'', ''counseling'', ''appointment'', ''meeting'',
               ''consultation'', ''treatment'']"

text \<open>
  The group \<open>(therapy|session|...)\<close> under the \<open>i\<close> flag, tried at the head of the string:
  the text after the first alternative that matches.  A pattern letter matches itself
  and its capital, that is, the characters that \<open>lower_char\<close> sends to it.
\<close>

definition match_keyword :: "string \<Rightarrow> string option" where
  "match_keyword s =
     (case find (\<lambda>k. starts_with (toLowerCase s) k) session_keywords of
        Some k \<Rightarrow> Some (drop (length k) s)
      | None \<Rightarrow> None)"

text \<open>\<open>/\s*-\s*(therapy|...|treatment)\s*/gi\<close>\<close>

definition match_sep_keyword :: "string \<Rightarrow> string option" where
  "match_sep_keyword s =
     (case dropWhile is_ws s of
        [] \<Rightarrow> None
      | c # s2 \<Rightarrow>
          if c = CHR ''-''
          then (case match_keyword (dropWhile is_ws s2) of
                  Some s3 \<Rightarrow> Some (dropWhile is_ws s3)
                | None \<Rightarrow> None)
          else None)"

text \<open>\<open>/\s*(therapy|...|treatment)\s*-?\s*/gi\<close>\<close>

definition match_keyword_sep :: "string \<Rightarrow> string option" where
  "match_keyword_sep s =
     (case match_keyword (dropWhile is_ws s) of
        Some s2 \<Rightarrow>
          (let s3 = dropWhile is_ws s2;
               s4 = (case s3 of [] \<Rightarrow> s3 | c # t \<Rightarrow> if c = CHR ''-'' then t else s3)
           in Some (dropWhile is_ws s4))
      | None \<Rightarrow> None)"

text \<open>\<open>/\([^)]*\)/g\<close>\<close>

definition match_paren :: "string \<Rightarrow> string option" where
  "match_paren s =
     (case s of
        [] \<Rightarrow> None
      | c # rest \<Rightarrow>
          if c = CHR ''(''
          then (case dropWhile (\<lambda>x. x \<noteq> CHR '')'') rest of
                  [] \<Rightarrow> None
                | d # t \<Rightarrow> Some t)
          else None)"

text \<open>The chain of the three \<open>replace\<close> calls and the final \<open>trim\<close>, lines 498 to 502.\<close>

definition cleanTitle :: "string \<Rightarrow> string" where
  "cleanTitle t =
     trim (replace_all match_paren
             (replace_all match_keyword_sep (replace_all match_sep_keyword t)))"

record extracted_client =
  extracted_name :: jsval
  extracted_id :: string

text \<open>
  \<open>extractClientFromTitle(title)\<close>.  Only \<open>title.match\<close> can raise, on a title that is
  not a string and before anything is assigned, so the handler finds \<open>id\<close> still empty.
\<close>

definition extractClientFromTitle :: "jsval \<Rightarrow> error + extracted_client" where
  "extractClientFromTitle title =
     try_catch
       (case title of
          JStr t \<Rightarrow>
            (let id = (case find_id t of Some tok \<Rightarrow> tok | None \<Rightarrow> []);
                 c = cleanTitle t
             in Inr \<lparr>extracted_name = (if c = [] then title else JStr c),
                      extracted_id = id\<rparr>)
        | _ \<Rightarrow> Inl TypeError)
       (\<lambda>e. Inr \<lparr>extracted_name = title, extracted_id = []\<rparr>)"


section \<open>CalendarService: matching appointments to clients\<close>

text \<open>The fields of an appointment and of a client that the matcher reads; a field that
  is missing is \<open>JUndefined\<close>.\<close>

record appointment =
  extractedClientName :: jsval
  extractedClientId :: jsval

record client =
  client_id :: jsval
  client_name :: jsval

text \<open>The two fields as \<open>formatAppointmentData\<close> fills them, lines 437 to 448.\<close>

definition appointment_of :: "extracted_client \<Rightarrow> appointment" where
  "appointment_of e =
     \<lparr>extractedClientName = extracted_name e, extractedClientId = JStr (extracted_id e)\<rparr>"

text \<open>
  The global function \<open>getAllClients\<close> is not among the sources; its outcome is a
  parameter: the function is not defined, the call raises, or it returns \<open>null\<close>
  (\<open>None\<close>) or an array of clients.
\<close>

datatype client_lookup = NotDefined | Raises error | Returns "client list option"

text \<open>\<open>object.field\<close> on an object that may be \<open>null\<close> or \<open>undefined\<close>.\<close>

definition get_field :: "'a option \<Rightarrow> ('a \<Rightarrow> jsval) \<Rightarrow> error + jsval" where
  "get_field obj field = (case obj of None \<Rightarrow> Inl TypeError | Some x \<Rightarrow> Inr (field x))"

text \<open>\<open>array.find(callback)\<close> with a callback that may raise.\<close>

fun find_e :: "('a \<Rightarrow> error + bool) \<Rightarrow> 'a list \<Rightarrow> error + 'a option" where
  "find_e p [] = Inr None"
| "find_e p (x # xs) =
     (case p x of Inl e \<Rightarrow> Inl e | Inr b \<Rightarrow> if b then Inr (Some x) else find_e p xs)"

text \<open>The three callbacks of \<open>matchAppointmentToClient\<close>, lines 614 to 616, 625 to 627
  and 631 to 635.\<close>

definition id_equals :: "jsval \<Rightarrow> client \<Rightarrow> error + bool" where
  "id_equals eid c =
     (if falsy (client_id c) then Inr False
      else bind_e (js_toLowerCase (client_id c)) (\<lambda>l.
           bind_e (js_toLowerCase eid) (\<lambda>r. Inr (l = r))))"

definition name_equals :: "string \<Rightarrow> client \<Rightarrow> error + bool" where
  "name_equals extractedName c =
     (if falsy (client_name c) then Inr False
      else bind_e (js_toLowerCase (client_name c)) (\<lambda>l. Inr (l = extractedName)))"

definition name_overlaps :: "string \<Rightarrow> client \<Rightarrow> error + bool" where
  "name_overlaps extractedName c =
     (if falsy (client_name c) then Inr False
      else bind_e (js_toLowerCase (client_name c)) (\<lambda>clientName.
             Inr (includes_str clientName extractedName
                  \<or> includes_str extractedName clientName)))"

text \<open>\<open>matchAppointmentToClient(appointment, sheetName)\<close>, lines 591 to 645.\<close>

definition matchAppointmentToClient ::
  "appointment option \<Rightarrow> client_lookup \<Rightarrow> error + client option" where
  "matchAppointmentToClient appt getAllClients =
     try_catch
       (case getAllClients of
          NotDefined \<Rightarrow> Inr None
        | Raises e \<Rightarrow> Inr None
        | Returns None \<Rightarrow> Inr None
        | Returns (Some allClients) \<Rightarrow>
            if length allClients = 0 then Inr None
            else
              bind_e (get_field appt extractedClientId) (\<lambda>eid.
              bind_e (if \<not> falsy eid then find_e (id_equals eid) allClients else Inr None)
                (\<lambda>byId.
                case byId of
                  Some c \<Rightarrow> Inr (Some c)
                | None \<Rightarrow>
                    bind_e (get_field appt extractedClientName) (\<lambda>en.
                      if \<not> falsy en
                      then
                        bind_e (js_toLowerCase en) (\<lambda>low.
                          let extractedName = trim low
                          in bind_e (find_e (name_equals extractedName) allClients)
                               (\<lambda>exactMatch.
                               case exactMatch of
                                 Some c \<Rightarrow> Inr (Some c)
                               | None \<Rightarrow>
                                   find_e (name_overlaps extractedName) allClients))
                      else Inr None))))
       (\<lambda>e. Inr None)"

text \<open>\<open>calculateMatchConfidence(appointment, client)\<close>, lines 653 to 684.  The test
  \<open>!client\<close> stands before the \<open>try\<close>.\<close>

definition fields_equal :: "jsval \<Rightarrow> jsval \<Rightarrow> error + bool" where
  "fields_equal extracted field =
     (if \<not> falsy extracted \<and> \<not> falsy field
      then bind_e (js_toLowerCase field) (\<lambda>l.
           bind_e (js_toLowerCase extracted) (\<lambda>r. Inr (l = r)))
      else Inr False)"

definition calculateMatchConfidence ::
  "appointment option \<Rightarrow> client option \<Rightarrow> error + string" where
  "calculateMatchConfidence appt cl =
     (case cl of
        None \<Rightarrow> Inr ''none''
      | Some c \<Rightarrow>
          try_catch
            (bind_e (get_field appt extractedClientId) (\<lambda>eid.
             bind_e (fields_equal eid (client_id c)) (\<lambda>idHit.
               if idHit then Inr ''high''
               else
                 bind_e (get_field appt extractedClientName) (\<lambda>en.
                 bind_e (fields_equal en (client_name c)) (\<lambda>nameHit.
                   if nameHit then Inr ''high''
                   else if \<not> falsy en \<and> \<not> falsy (client_name c)
                   then
                     bind_e (js_toLowerCase en) (\<lambda>extractedName.
                     bind_e (js_toLowerCase (client_name c)) (\<lambda>clientName.
                       if includes_str clientName extractedName
                          \<or> includes_str extractedName clientName
                       then Inr ''medium'' else Inr ''low''))
                   else Inr ''low'')))))
            (\<lambda>e. Inr ''low''))"

text \<open>
  The pairing of the two, as the callers do it for each appointment
  (\<open>getAppointmentsWithClientMatches\<close>, lines 558 to 577, and
  \<open>enhanceAppointmentsWithStatus\<close> in DialogHandler.js).
\<close>

record match_result =
  matchedClient :: "client option"
  hasClientMatch :: bool
  matchConfidence :: string

definition match_appointment ::
  "appointment option \<Rightarrow> client_lookup \<Rightarrow> error + match_result" where
  "match_appointment appt getAllClients =
     try_catch
       (bind_e (matchAppointmentToClient appt getAllClients) (\<lambda>m.
        bind_e (calculateMatchConfidence appt m) (\<lambda>conf.
          Inr \<lparr>matchedClient = m, hasClientMatch = (m \<noteq> None), matchConfidence = conf\<rparr>)))
       (\<lambda>e. Inr \<lparr>matchedClient = None, hasClientMatch = False,
                  matchConfidence = ''none''\<rparr>)"


section \<open>Notions used in the statements\<close>

text \<open>The entries a parsed list consists of: not empty, unchanged by \<open>trim\<close>, free of
  the separator.\<close>

definition canonical_items :: "string list \<Rightarrow> bool" where
  "canonical_items xs = (\<forall>x\<in>set xs. x \<noteq> [] \<and> trim x = x \<and> CHR ''|'' \<notin> set x)"

text \<open>The strings among the elements of an array, in order.\<close>

fun strings_of :: "jsval list \<Rightarrow> string list" where
  "strings_of [] = []"
| "strings_of (JStr s # vs) = s # strings_of vs"
| "strings_of (v # vs) = strings_of vs"

text \<open>A field as the data model has it: a string, or missing (any falsy value).\<close>

definition string_or_absent :: "jsval \<Rightarrow> bool" where
  "string_or_absent v = (falsy v \<or> is_string v)"

text \<open>
  Two fields match exactly, case-insensitively: both are present (non-empty strings) and
  their lower-case forms are equal.  A missing field matches nothing.
\<close>

fun ci_equal :: "jsval \<Rightarrow> jsval \<Rightarrow> bool" where
  "ci_equal (JStr x) (JStr y) = (x \<noteq> [] \<and> y \<noteq> [] \<and> toLowerCase x = toLowerCase y)"
| "ci_equal v w = False"

text \<open>
  Two fields overlap, case-insensitively: both are present and the lower-case form of
  one occurs as a contiguous part of the lower-case form of the other.
\<close>

fun ci_overlap :: "jsval \<Rightarrow> jsval \<Rightarrow> bool" where
  "ci_overlap (JStr x) (JStr y) =
     (x \<noteq> [] \<and> y \<noteq> []
      \<and> (sublist (toLowerCase x) (toLowerCase y) \<or> sublist (toLowerCase y) (toLowerCase x)))"
| "ci_overlap v w = False"

text \<open>A field that, when it is a string, has no white space at either end.\<close>

fun trimmed_field :: "jsval \<Rightarrow> bool" where
  "trimmed_field (JStr x) = (trim x = x)"
| "trimmed_field v = True"

text \<open>A field with the white space at its ends removed, when it is a string.\<close>

fun trim_field :: "jsval \<Rightarrow> jsval" where
  "trim_field (JStr x) = JStr (trim x)"
| "trim_field v = v"

text \<open>A blank field: a string that is not empty and consists of white space only.\<close>

fun blank_field :: "jsval \<Rightarrow> bool" where
  "blank_field (JStr x) = (x \<noteq> [] \<and> trim x = [])"
| "blank_field v = False"




section \<open>Strings\<close>

lemma dropWhile_rev_stable:
  assumes "dropWhile P xs = xs"
  shows "dropWhile P (rev (dropWhile P (rev xs))) = rev (dropWhile P (rev xs))"
proof (cases "dropWhile P (rev xs) = []")
  case True
  then show ?thesis by (simp del: dropWhile_eq_Nil_conv)
next
  case False
  define b where "b = rev (dropWhile P (rev xs))"
  have "rev xs = takeWhile P (rev xs) @ dropWhile P (rev xs)" by simp
  then have "xs = b @ rev (takeWhile P (rev xs))"
    unfolding b_def by (metis rev_append rev_rev_ident)
  moreover have "b \<noteq> []" using False by (simp add: b_def)
  ultimately have "hd b = hd xs" and "xs \<noteq> []"
    by (metis hd_append2, metis append_is_Nil_conv)
  moreover have "\<not> P (hd xs)" using assms \<open>xs \<noteq> []\<close> by (metis hd_dropWhile)
  ultimately have "\<not> P (hd b)" by simp
  then have "dropWhile P b = b" using \<open>b \<noteq> []\<close> by (cases b) auto
  then show ?thesis by (simp add: b_def)
qed

lemma trim_idem: "trim (trim s) = trim s"
proof -
  have "dropWhile is_ws (dropWhile is_ws s) = dropWhile is_ws s" by simp
  from dropWhile_rev_stable[OF this]
  show ?thesis by (simp add: trim_def)
qed

lemma all_dropWhile: "(\<forall>x\<in>set (dropWhile P s). P x) \<longleftrightarrow> (\<forall>x\<in>set s. P x)"
  by (induction s) auto

lemma trim_eq_Nil: "trim s = [] \<longleftrightarrow> (\<forall>c\<in>set s. is_ws c)"
  by (simp add: trim_def all_dropWhile)

lemma not_ws_pipe: "\<not> is_ws (CHR ''|'')"
  by (simp add: is_ws_def)

lemma set_trim_subset: "set (trim s) \<subseteq> set s"
  unfolding trim_def
  by (metis set_dropWhileD set_rev subsetI)

lemma split_pipe_nonempty: "split_pipe s \<noteq> []"
  by (induction s) (auto split: list.splits)

lemma split_pipe_no_pipe: "p \<in> set (split_pipe s) \<Longrightarrow> CHR ''|'' \<notin> set p"
  by (induction s arbitrary: p) (auto split: list.splits if_splits)

lemma split_pipe_single: "CHR ''|'' \<notin> set x \<Longrightarrow> split_pipe x = [x]"
  by (induction x) (auto split: list.splits)

lemma split_pipe_append:
  "CHR ''|'' \<notin> set x \<Longrightarrow> split_pipe (x @ CHR ''|'' # r) = x # split_pipe r"
  by (induction x) (auto split: list.splits)

lemma split_join:
  "xs \<noteq> [] \<Longrightarrow> \<forall>x\<in>set xs. CHR ''|'' \<notin> set x \<Longrightarrow> split_pipe (join_sep ''|'' xs) = xs"
  by (induction "''|''" xs rule: join_sep.induct)
     (auto simp: split_pipe_single split_pipe_append)

lemma join_eq_Nil: "\<forall>x\<in>set xs. x \<noteq> [] \<Longrightarrow> join_sep sep xs = [] \<longleftrightarrow> xs = []"
  by (induction sep xs rule: join_sep.induct) auto


section \<open>Parsing and serialising\<close>

lemma parse_JStr:
  "parse (JStr s) True = Inr (filter (\<lambda>item. item \<noteq> []) (map trim (split_pipe s)))"
  by (cases s) (simp_all add: parse_def try_catch_def trim_def split: list.splits)

lemma parse_canonical: "parse d True = Inr xs \<Longrightarrow> canonical_items xs"
proof (cases d)
  case (JStr s)
  assume "parse d True = Inr xs"
  then have xs: "xs = filter (\<lambda>item. item \<noteq> []) (map trim (split_pipe s))"
    by (simp add: JStr parse_JStr)
  show ?thesis
    unfolding canonical_items_def xs
    using split_pipe_no_pipe set_trim_subset by (fastforce simp: trim_idem)
qed (auto simp: parse_def try_catch_def canonical_items_def)

lemma parse_join:
  assumes "canonical_items xs"
  shows "parse (JStr (join_sep ''|'' xs)) True = Inr xs"
proof (cases "xs = []")
  case True
  then show ?thesis by (simp add: parse_def try_catch_def)
next
  case False
  have "split_pipe (join_sep ''|'' xs) = xs"
    using assms False by (intro split_join) (auto simp: canonical_items_def)
  moreover have "map trim xs = xs" using assms by (simp add: canonical_items_def map_idI)
  moreover have "filter (\<lambda>item. item \<noteq> []) xs = xs"
    using assms by (simp add: canonical_items_def)
  ultimately show ?thesis by (simp add: parse_JStr)
qed

lemma stringify_str_array:
  "stringify (str_array xs) True
     = Inr (join_sep ''|'' (filter (\<lambda>item. item \<noteq> []) (map trim xs)))"
  by (simp add: stringify_def str_array_def try_catch_def comp_def)

lemma stringify_canonical:
  assumes "canonical_items xs"
  shows "stringify (str_array xs) True = Inr (join_sep ''|'' xs)"
proof -
  have "map trim xs = xs" using assms by (simp add: canonical_items_def map_idI)
  moreover have "filter (\<lambda>item. item \<noteq> []) xs = xs"
    using assms by (simp add: canonical_items_def)
  ultimately show ?thesis by (simp add: stringify_str_array)
qed


section \<open>reorderItems\<close>

lemma canonical_filter: "canonical_items xs \<Longrightarrow> canonical_items (filter P xs)"
  by (simp add: canonical_items_def)

lemma canonical_append: "canonical_items (xs @ ys) \<longleftrightarrow> canonical_items xs \<and> canonical_items ys"
  by (auto simp: canonical_items_def)

lemma valid_order_strings:
  "filter (\<lambda>item. item \<in> JStr ` S) order = map JStr (filter (\<lambda>s. s \<in> S) (strings_of order))"
  by (induction order rule: strings_of.induct) auto

lemma JStr_in_set: "JStr x \<in> set order \<longleftrightarrow> x \<in> set (strings_of order)"
  by (induction order rule: strings_of.induct) auto

lemma count_strings_of: "count_list (strings_of order) x = count_list order (JStr x)"
  by (induction order rule: strings_of.induct) auto

lemma reorderItems_JStr:
  assumes "parse (JStr text) True = Inr ps"
  shows "reorderItems (JStr text) (JArr order)
           = Inr (JStr (join_sep ''|'' (filter (\<lambda>s. s \<in> set ps) (strings_of order)
                                         @ filter (\<lambda>i. JStr i \<notin> set order) ps)))"
proof (cases "text = []")
  case True
  then have "ps = []" using assms by (simp add: parse_def try_catch_def)
  then show ?thesis using True by (simp add: reorderItems_def try_catch_def or_empty_def)
next
  case False
  let ?fs = "filter (\<lambda>s. s \<in> set ps) (strings_of order) @ filter (\<lambda>i. JStr i \<notin> set order) ps"
  have can: "canonical_items ?fs"
    using parse_canonical[OF assms] by (auto simp: canonical_items_def)
  have "stringify (JArr (map JStr ?fs)) True = Inr (join_sep ''|'' ?fs)"
    using stringify_canonical[OF can] by (simp add: str_array_def)
  then show ?thesis
    using False assms
    by (simp add: reorderItems_def try_catch_def bind_e_def valid_order_strings)
qed


lemma count_list_filter: "count_list (filter P xs) x = (if P x then count_list xs x else 0)"
  by (induction xs) auto

lemma mset_eq_count_list: "mset xs = mset ys \<longleftrightarrow> (\<forall>x. count_list xs x = count_list ys x)"
  by (simp add: multiset_eq_iff count_mset count_list_eq_length_filter)

lemma distinct_count_list: "distinct xs \<Longrightarrow> x \<in> set xs \<Longrightarrow> count_list xs x = 1"
  by (induction xs) auto

lemma reorder_count:
  "count_list (filter (\<lambda>s. s \<in> set ps) (strings_of order)
                @ filter (\<lambda>i. JStr i \<notin> set order) ps) x
     = (if x \<in> set ps \<and> JStr x \<in> set order then count_list order (JStr x)
        else count_list ps x)"
  by (auto simp: count_list_filter count_strings_of JStr_in_set)

lemma reorder_perm_iff:
  "mset (filter (\<lambda>s. s \<in> set ps) (strings_of order)
          @ filter (\<lambda>i. JStr i \<notin> set order) ps) = mset ps
   \<longleftrightarrow> (\<forall>x\<in>set ps. JStr x \<in> set order \<longrightarrow> count_list order (JStr x) = count_list ps x)"
  unfolding mset_eq_count_list reorder_count by auto

lemma reorder_set:
  "set (filter (\<lambda>s. s \<in> set ps) (strings_of order)
          @ filter (\<lambda>i. JStr i \<notin> set order) ps) = set ps"
  by (auto simp: JStr_in_set)

text \<open>
  C2 (as amended).  For every text and every array \<open>newOrder\<close>, whatever its elements,
  \<open>reorderItems\<close> returns a text whose parsed entries are, as a set, those of
  the original text: no new entry appears and none disappears.  The parsed result is a
  permutation of the parsed original exactly when every entry that also occurs in
  \<open>newOrder\<close> occurs there as often as in the original; in particular when neither the
  original entries nor \<open>newOrder\<close> repeat an element.
\<close>

theorem reorderItems_items:
  "\<exists>r ps qs. reorderItems (JStr text) (JArr newOrder) = Inr (JStr r)
      \<and> parse (JStr text) True = Inr ps \<and> parse (JStr r) True = Inr qs
      \<and> set qs = set ps
      \<and> (mset qs = mset ps \<longleftrightarrow>
           (\<forall>x\<in>set ps. JStr x \<in> set newOrder
              \<longrightarrow> count_list newOrder (JStr x) = count_list ps x))
      \<and> (distinct ps \<and> distinct newOrder \<longrightarrow> mset qs = mset ps)"
proof -
  obtain ps where ps: "parse (JStr text) True = Inr ps" by (simp add: parse_JStr)
  let ?qs = "filter (\<lambda>s. s \<in> set ps) (strings_of newOrder)
               @ filter (\<lambda>i. JStr i \<notin> set newOrder) ps"
  have can: "canonical_items ?qs"
    using parse_canonical[OF ps] by (auto simp: canonical_items_def)
  have r: "reorderItems (JStr text) (JArr newOrder) = Inr (JStr (join_sep ''|'' ?qs))"
    by (rule reorderItems_JStr[OF ps])
  have q: "parse (JStr (join_sep ''|'' ?qs)) True = Inr ?qs"
    by (rule parse_join[OF can])
  have d: "distinct ps \<and> distinct newOrder \<longrightarrow> mset ?qs = mset ps"
    unfolding reorder_perm_iff by (auto simp: distinct_count_list)
  show ?thesis
    using r ps q reorder_set[of ps newOrder] reorder_perm_iff[of ps newOrder] d by blast
qed

text \<open>The theorem at \<open>A|B|C\<close> reordered by \<open>[C, 7, A]\<close>.\<close>

theorem reorderItems_items_witness:
  "\<exists>r ps qs. reorderItems (JStr ''A|B|C'') (JArr [JStr ''C'', JNum 7, JStr ''A'']) = Inr (JStr r)
      \<and> parse (JStr ''A|B|C'') True = Inr ps \<and> parse (JStr r) True = Inr qs
      \<and> set qs = set ps \<and> mset qs = mset ps"
proof -
  have ps: "parse (JStr ''A|B|C'') True = Inr [''A'', ''B'', ''C'']" by code_simp
  show ?thesis
    using reorderItems_items[of "''A|B|C''" "[JStr ''C'', JNum 7, JStr ''A'']"] ps
    by auto
qed

text \<open>
  C2 as stated fails: an entry that \<open>newOrder\<close> names twice is written twice, so the
  result of reordering \<open>A|B\<close> by \<open>[A, A]\<close> has three entries.
\<close>

theorem reorderItems_duplicates_counterexample:
  "reorderItems (JStr ''A|B'') (JArr [JStr ''A'', JStr ''A'']) = Inr (JStr ''A|A|B'')
   \<and> parse (JStr ''A|B'') True = Inr [''A'', ''B'']
   \<and> parse (JStr ''A|A|B'') True = Inr [''A'', ''A'', ''B'']
   \<and> mset [''A'', ''A'', ''B''] \<noteq> mset [''A'', ''B'']"
proof -
  have "reorderItems (JStr ''A|B'') (JArr [JStr ''A'', JStr ''A'']) = Inr (JStr ''A|A|B'')"
    by code_simp
  moreover have "parse (JStr ''A|B'') True = Inr [''A'', ''B'']" by code_simp
  moreover have "parse (JStr ''A|A|B'') True = Inr [''A'', ''A'', ''B'']" by code_simp
  moreover have "mset [''A'', ''A'', ''B''] \<noteq> mset [''A'', ''B'']" by simp
  ultimately show ?thesis by blast
qed



section \<open>addItem\<close>

lemma parse_total: "\<exists>ps. parse d t = Inr ps"
  by (cases d) (auto simp: parse_def try_catch_def Let_def)

lemma parse_empty: "parse (JStr []) True = Inr []"
  by (simp add: parse_def try_catch_def)

lemma canonical_snoc:
  "canonical_items ps \<Longrightarrow> t \<noteq> [] \<Longrightarrow> trim t = t \<Longrightarrow> CHR ''|'' \<notin> set t
     \<Longrightarrow> canonical_items (ps @ [t])"
  by (simp add: canonical_items_def)

lemma addItem_present:
  assumes "parse (JStr text) True = Inr ps" "trim item \<in> set ps"
  shows "addItem (JStr text) (JStr item) False = Inr (JStr text)"
  using assms by (cases "item = []") (auto simp: addItem_def try_catch_def bind_e_def or_empty_def)

lemma addItem_fresh:
  assumes "parse (JStr text) True = Inr ps" "trim item \<notin> set ps"
    and "trim item \<noteq> []" "CHR ''|'' \<notin> set item"
  shows "\<exists>r. addItem (JStr text) (JStr item) False = Inr (JStr r)
              \<and> parse (JStr r) True = Inr (ps @ [trim item])"
proof -
  have "item \<noteq> []" using assms(3) by (auto simp: trim_def)
  have "CHR ''|'' \<notin> set (trim item)" using assms(4) set_trim_subset by blast
  then have can: "canonical_items (ps @ [trim item])"
    using parse_canonical[OF assms(1)] assms(3) by (intro canonical_snoc) (auto simp: trim_idem)
  have "addItem (JStr text) (JStr item) False = Inr (JStr (join_sep ''|'' (ps @ [trim item])))"
    using assms(1,2) \<open>item \<noteq> []\<close> stringify_canonical[OF can]
    by (simp add: addItem_def try_catch_def bind_e_def)
  then show ?thesis using parse_join[OF can] by blast
qed

text \<open>
  C3 (as amended).  For every text and string item, \<open>addItem\<close> without duplicates
  returns the original text unchanged when the trimmed item already occurs among the
  parsed entries.  Otherwise, when the trimmed item is not empty and the item holds no
  separator, the result parses back to the parsed entries of the text followed by the
  trimmed item.  Concretely, adding \<open>A\<close> to \<open>A|B\<close> gives \<open>A|B\<close> without duplicates and
  \<open>A|B|A\<close> with them.
\<close>

theorem addItem_appends:
  "(\<exists>ps. parse (JStr text) True = Inr ps
      \<and> (trim item \<in> set ps \<longrightarrow> addItem (JStr text) (JStr item) False = Inr (JStr text))
      \<and> (trim item \<notin> set ps \<and> trim item \<noteq> [] \<and> CHR ''|'' \<notin> set item \<longrightarrow>
           (\<exists>r. addItem (JStr text) (JStr item) False = Inr (JStr r)
                \<and> parse (JStr r) True = Inr (ps @ [trim item]))))
   \<and> addItem (JStr ''A|B'') (JStr ''A'') False = Inr (JStr ''A|B'')
   \<and> addItem (JStr ''A|B'') (JStr ''A'') True = Inr (JStr ''A|B|A'')"
proof -
  obtain ps where ps: "parse (JStr text) True = Inr ps" using parse_total by blast
  have 1: "trim item \<in> set ps \<longrightarrow> addItem (JStr text) (JStr item) False = Inr (JStr text)"
    using addItem_present[OF ps] by blast
  have 2: "trim item \<notin> set ps \<and> trim item \<noteq> [] \<and> CHR ''|'' \<notin> set item \<longrightarrow>
           (\<exists>r. addItem (JStr text) (JStr item) False = Inr (JStr r)
                \<and> parse (JStr r) True = Inr (ps @ [trim item]))"
    using addItem_fresh[OF ps] by blast
  have 3: "addItem (JStr ''A|B'') (JStr ''A'') False = Inr (JStr ''A|B'')" by code_simp
  have 4: "addItem (JStr ''A|B'') (JStr ''A'') True = Inr (JStr ''A|B|A'')" by code_simp
  show ?thesis using ps 1 2 3 4 by blast
qed

text \<open>
  The theorem on the text \<open>A | B\<close>: an item that is present, and one that is not.
\<close>

theorem addItem_appends_witness:
  "addItem (JStr ''A | B'') (JStr '' B '') False = Inr (JStr ''A | B'')
   \<and> (\<exists>r. addItem (JStr ''A | B'') (JStr '' C '') False = Inr (JStr r)
          \<and> parse (JStr r) True = Inr [''A'', ''B'', ''C''])"
proof -
  have ps: "parse (JStr ''A | B'') True = Inr [''A'', ''B'']" by code_simp
  have b: "trim '' B '' = ''B''" and c: "trim '' C '' = ''C''" by code_simp+
  from addItem_appends[of "''A | B''" "'' B ''"] ps b
  have 1: "addItem (JStr ''A | B'') (JStr '' B '') False = Inr (JStr ''A | B'')" by auto
  from addItem_appends[of "''A | B''" "'' C ''"] ps c
  have 2: "\<exists>r. addItem (JStr ''A | B'') (JStr '' C '') False = Inr (JStr r)
          \<and> parse (JStr r) True = Inr [''A'', ''B'', ''C'']" by auto
  show ?thesis using 1 2 by blast
qed

text \<open>
  C3 as stated fails for an item that is blank and for one that holds the separator.
  Neither occurs among the entries of \<open>A\<close>, yet adding a blank leaves the entries as
  they are and adding \<open>B|C\<close> appends two entries.
\<close>

theorem addItem_blank_or_pipe_counterexample:
  "parse (JStr ''A'') True = Inr [''A'']
   \<and> trim '' '' \<notin> set [''A'']
   \<and> addItem (JStr ''A'') (JStr '' '') False = Inr (JStr ''A'')
   \<and> [''A''] \<noteq> [''A''] @ [trim '' '']
   \<and> trim ''B|C'' \<notin> set [''A'']
   \<and> addItem (JStr ''A'') (JStr ''B|C'') False = Inr (JStr ''A|B|C'')
   \<and> parse (JStr ''A|B|C'') True = Inr [''A'', ''B'', ''C'']
   \<and> [''A'', ''B'', ''C''] \<noteq> [''A''] @ [trim ''B|C'']"
  by code_simp


section \<open>removeItem\<close>

lemma or_empty_idem: "or_empty (or_empty d) = or_empty d"
  by (simp add: or_empty_def)

lemma removeItem_guard:
  "falsy d \<or> falsy x \<Longrightarrow> removeItem d x = Inr (or_empty d)"
  by (auto simp: removeItem_def try_catch_def)

lemma removeItem_not_string:
  "\<not> falsy d \<Longrightarrow> \<not> is_string x \<Longrightarrow> removeItem d x = Inr d"
  using parse_total[of d True]
  by (cases x) (auto simp: removeItem_def try_catch_def bind_e_def or_empty_def)

lemma removeItem_string:
  assumes "\<not> falsy d" "item \<noteq> []" "parse d True = Inr ps"
  shows "removeItem d (JStr item)
           = Inr (JStr (join_sep ''|'' (filter (\<lambda>i. i \<noteq> trim item) ps)))"
proof -
  have "canonical_items (filter (\<lambda>i. i \<noteq> trim item) ps)"
    using parse_canonical[OF assms(3)] by (rule canonical_filter)
  from stringify_canonical[OF this] show ?thesis
    using assms by (simp add: removeItem_def try_catch_def bind_e_def)
qed

lemma removeItem_idem: "\<exists>r. removeItem d x = Inr r \<and> removeItem r x = Inr r"
proof (cases "falsy d \<or> falsy x")
  case True
  then have r: "removeItem d x = Inr (or_empty d)" by (rule removeItem_guard)
  have "falsy (or_empty d) \<or> falsy x" using True by (auto simp: or_empty_def)
  then have "removeItem (or_empty d) x = Inr (or_empty d)"
    by (simp add: removeItem_guard or_empty_idem)
  with r show ?thesis by simp
next
  case False
  show ?thesis
  proof (cases x)
    case (JStr item)
    obtain ps where ps: "parse d True = Inr ps" using parse_total by blast
    let ?fs = "filter (\<lambda>i. i \<noteq> trim item) ps"
    have item: "item \<noteq> []" using False JStr by simp
    have r: "removeItem d x = Inr (JStr (join_sep ''|'' ?fs))"
      using False item ps by (simp add: JStr removeItem_string)
    have can: "canonical_items ?fs"
      using parse_canonical[OF ps] by (rule canonical_filter)
    have "removeItem (JStr (join_sep ''|'' ?fs)) x = Inr (JStr (join_sep ''|'' ?fs))"
    proof (cases "join_sep ''|'' ?fs = []")
      case True
      then show ?thesis by (simp add: removeItem_guard or_empty_def)
    next
      case nonempty: False
      have "removeItem (JStr (join_sep ''|'' ?fs)) (JStr item)
              = Inr (JStr (join_sep ''|'' (filter (\<lambda>i. i \<noteq> trim item) ?fs)))"
        using nonempty item parse_join[OF can] by (intro removeItem_string) auto
      then show ?thesis by (simp add: JStr)
    qed
    with r show ?thesis by simp
  qed (use False in \<open>auto simp: removeItem_not_string\<close>)
qed

lemma removeItem_parse:
  assumes "parse (JStr text) True = Inr ps"
  shows "\<exists>r. removeItem (JStr text) (JStr item) = Inr (JStr r)
            \<and> parse (JStr r) True = Inr (filter (\<lambda>i. i \<noteq> trim item) ps)"
proof (cases "text = [] \<or> item = []")
  case True
  have "filter (\<lambda>i. i \<noteq> trim item) ps = ps"
  proof (cases "text = []")
    case True
    then show ?thesis using assms by (simp add: parse_empty)
  next
    case False
    then have "trim item = []" using True by (simp add: trim_def)
    then show ?thesis using parse_canonical[OF assms] by (auto simp: canonical_items_def filter_id_conv)
  qed
  moreover have "removeItem (JStr text) (JStr item) = Inr (JStr text)"
    using True by (auto simp: removeItem_guard or_empty_def)
  ultimately show ?thesis using assms by simp
next
  case False
  have can: "canonical_items (filter (\<lambda>i. i \<noteq> trim item) ps)"
    using parse_canonical[OF assms] by (rule canonical_filter)
  have "removeItem (JStr text) (JStr item)
          = Inr (JStr (join_sep ''|'' (filter (\<lambda>i. i \<noteq> trim item) ps)))"
    using False assms by (intro removeItem_string) auto
  then show ?thesis using parse_join[OF can] by blast
qed

text \<open>
  C7.  \<open>removeItem\<close> is idempotent: for every text and item, whatever their types,
  removing the item from the result of removing it gives that result again.  On strings
  it drops all parsed entries equal to the trimmed item, and removing an item that is not
  present is a no-op: the parsed entries stay as they are, and a text in serialised form
  (the join of its own entries) is returned as it is.
\<close>

theorem removeItem_idempotent:
  "(\<exists>r. removeItem data x = Inr r \<and> removeItem r x = Inr r)
   \<and> (\<exists>r ps. parse (JStr text) True = Inr ps
         \<and> removeItem (JStr text) (JStr item) = Inr (JStr r)
         \<and> parse (JStr r) True = Inr (filter (\<lambda>i. i \<noteq> trim item) ps)
         \<and> (trim item \<notin> set ps \<longrightarrow> parse (JStr r) True = Inr ps)
         \<and> (trim item \<notin> set ps \<and> join_sep ''|'' ps = text \<longrightarrow> r = text))"
proof -
  obtain ps where ps: "parse (JStr text) True = Inr ps" using parse_total by blast
  obtain r where r: "removeItem (JStr text) (JStr item) = Inr (JStr r)"
    "parse (JStr r) True = Inr (filter (\<lambda>i. i \<noteq> trim item) ps)"
    using removeItem_parse[OF ps] by blast
  have same: "trim item \<notin> set ps \<longrightarrow> filter (\<lambda>i. i \<noteq> trim item) ps = ps"
    by (auto simp: filter_id_conv)
  then have 1: "trim item \<notin> set ps \<longrightarrow> parse (JStr r) True = Inr ps" using r(2) by simp
  have 2: "trim item \<notin> set ps \<and> join_sep ''|'' ps = text \<longrightarrow> r = text"
  proof (cases "text = [] \<or> item = []")
    case True
    then have "removeItem (JStr text) (JStr item) = Inr (JStr text)"
      by (auto simp: removeItem_guard or_empty_def)
    then show ?thesis using r(1) by simp
  next
    case False
    then have "removeItem (JStr text) (JStr item)
          = Inr (JStr (join_sep ''|'' (filter (\<lambda>i. i \<noteq> trim item) ps)))"
      using ps by (intro removeItem_string) auto
    then show ?thesis using r(1) same by auto
  qed
  show ?thesis using removeItem_idem[of data x] ps r 1 2 by blast
qed

text \<open>
  The theorem at \<open>A| B |A\<close> without \<open>A\<close>, and at \<open>A|B\<close> without the absent \<open>C\<close>.
\<close>

theorem removeItem_idempotent_witness:
  "removeItem (JStr ''A| B |A'') (JStr '' A'') = Inr (JStr ''B'')
   \<and> removeItem (JStr ''B'') (JStr '' A'') = Inr (JStr ''B'')
   \<and> (\<exists>r. removeItem (JStr ''A|B'') (JStr ''C'') = Inr (JStr r)
          \<and> parse (JStr r) True = Inr [''A'', ''B''])"
proof -
  have ps: "parse (JStr ''A|B'') True = Inr [''A'', ''B'']" by code_simp
  have c: "trim ''C'' = ''C''" by code_simp
  have 1: "removeItem (JStr ''A| B |A'') (JStr '' A'') = Inr (JStr ''B'')" by code_simp
  from removeItem_idempotent[of "JStr ''A| B |A''" "JStr '' A''" "''A|B''" "''C''"] 1 ps c
  show ?thesis by auto
qed


section \<open>updateItem\<close>









section \<open>validate\<close>

lemma fold_set_order:
  "distinct acc \<Longrightarrow>
     distinct (fold (\<lambda>x acc. if x \<in> set acc then acc else acc @ [x]) xs acc)
   \<and> set (fold (\<lambda>x acc. if x \<in> set acc then acc else acc @ [x]) xs acc) = set acc \<union> set xs"
  by (induction xs arbitrary: acc) auto

lemma distinct_set_order: "distinct (set_order xs)"
  using fold_set_order[of "[]" xs] by (simp add: set_order_def)

lemma set_set_order: "set (set_order xs) = set xs"
  using fold_set_order[of "[]" xs] by (simp add: set_order_def)

lemma length_set_order: "length (set_order xs) = card (set xs)"
  using distinct_card[OF distinct_set_order, of xs] by (simp add: set_set_order)

lemma set_order_length_eq: "length (set_order xs) = length xs \<longleftrightarrow> distinct xs"
  by (metis length_set_order card_distinct distinct_card)

text \<open>
  The report on a non-empty text.  The entries come out of \<open>parse\<close> trimmed and with
  the empty ones dropped, so the filter for empty items finds nothing and the issues are
  at most the one on duplicates and the one on line breaks and tabs.
\<close>

lemma validate_string:
  assumes "text \<noteq> []" "parse (JStr text) True = Inr ps"
  shows "validate (JStr text)
           = Inr \<lparr>valid = (distinct ps \<and> filter has_line_break ps = []),
                   itemCount = length ps,
                   uniqueItemCount = Some (card (set ps)),
                   issues =
                     (if distinct ps then []
                      else [''Found '' @ dec_nat (length ps - card (set ps))
                              @ '' duplicate items''])
                     @ (if filter has_line_break ps = [] then []
                        else [''Found '' @ dec_nat (length (filter has_line_break ps))
                                @ '' items with line breaks or tabs''])\<rparr>"
proof -
  have "filter (\<lambda>item. trim item = []) ps = []"
    using parse_canonical[OF assms(2)] by (auto simp: canonical_items_def filter_empty_conv)
  then show ?thesis
    using assms
    by (simp add: validate_def try_catch_def bind_e_def Let_def length_set_order
        set_order_length_eq card_distinct distinct_card)
qed

lemma validate_valid_iff: "validate d = Inr r \<Longrightarrow> valid r \<longleftrightarrow> issues r = []"
proof (cases "falsy d \<or> \<not> is_string d")
  case True
  assume "validate d = Inr r"
  then show ?thesis using True by (auto simp: validate_def try_catch_def split: if_splits)
next
  case False
  assume v: "validate d = Inr r"
  from False obtain t where d: "d = JStr t" "t \<noteq> []" by (cases d) auto
  obtain ps where ps: "parse (JStr t) True = Inr ps" using parse_total by blast
  show ?thesis using v validate_string[OF d(2) ps] by (auto simp: d split: if_splits)
qed

text \<open>
  C9, evaluated where the code departs from it.  The specification has \<open>validate\<close> report the
  empty segment of \<open>A||B\<close> as an empty-item issue; the code reports the text as valid,
  with two items and no issue.
\<close>

theorem validate_empty_segment_unreported:
  "validate (JStr ''A||B'')
     = Inr \<lparr>valid = True, itemCount = 2, uniqueItemCount = Some 2, issues = []\<rparr>"
  by code_simp


section \<open>Matching appointments to clients\<close>

lemma starts_with_prefix: "starts_with s p \<longleftrightarrow> prefix p s"
  by (induction s p rule: starts_with.induct) auto

lemma includes_str_sublist: "includes_str h n \<longleftrightarrow> sublist n h"
  by (induction h) (auto simp: starts_with_prefix sublist_Cons_right)

lemma is_ws_lower_char: "is_ws (lower_char c) = is_ws c"
  by (auto simp: is_ws_def lower_char_def Let_def)

lemma trim_toLowerCase: "trim (toLowerCase s) = toLowerCase (trim s)"
  by (simp add: trim_def toLowerCase_def dropWhile_map rev_map comp_def is_ws_lower_char)

lemma toLowerCase_eq_Nil [simp]: "toLowerCase s = [] \<longleftrightarrow> s = []"
  by (simp add: toLowerCase_def)

lemma find_e_pure: "\<forall>x\<in>set xs. p x = Inr (q x) \<Longrightarrow> find_e p xs = Inr (find q xs)"
  by (induction xs) auto

lemma find_e_no_hit:
  "\<forall>x\<in>set xs. p x \<noteq> Inr True \<Longrightarrow> find_e p xs = Inr None \<or> (\<exists>e. find_e p xs = Inl e)"
  by (induction xs) (auto split: sum.splits)

lemma find_unique: "filter P xs = [c] \<Longrightarrow> find P xs = Some c"
  by (induction xs) (auto split: if_splits)

lemma id_equals_ci:
  assumes "eid \<noteq> []" "string_or_absent (client_id c)"
  shows "id_equals (JStr eid) c = Inr (ci_equal (JStr eid) (client_id c))"
  using assms
  by (cases "client_id c") (auto simp: id_equals_def bind_e_def string_or_absent_def)

lemma name_equals_ci:
  assumes "en \<noteq> []" "string_or_absent (client_name c)"
  shows "name_equals (toLowerCase en) c = Inr (ci_equal (JStr en) (client_name c))"
  using assms
  by (cases "client_name c") (auto simp: name_equals_def bind_e_def string_or_absent_def)

lemma fields_equal_ci:
  assumes "string_or_absent x" "string_or_absent y"
  shows "fields_equal x y = Inr (ci_equal x y)"
  using assms
  by (cases x; cases y) (auto simp: fields_equal_def bind_e_def string_or_absent_def)

lemma id_equals_hit: "\<not> falsy eid \<Longrightarrow> id_equals eid c = Inr True \<Longrightarrow> ci_equal eid (client_id c)"
  by (cases eid; cases "client_id c")
     (auto simp: id_equals_def bind_e_def split: if_splits)

lemma name_equals_hit:
  "en \<noteq> [] \<Longrightarrow> name_equals (toLowerCase en) c = Inr True \<Longrightarrow> ci_equal (JStr en) (client_name c)"
  by (cases "client_name c")
     (auto simp: name_equals_def bind_e_def split: if_splits)

lemma name_overlaps_hit:
  "en \<noteq> [] \<Longrightarrow> name_overlaps (toLowerCase en) c = Inr True
     \<Longrightarrow> ci_overlap (JStr en) (client_name c)"
  by (cases "client_name c")
     (auto simp: name_overlaps_def bind_e_def includes_str_sublist split: if_splits)


lemma confidence_by_id:
  assumes "ci_equal (extractedClientId a) (client_id c)"
  shows "calculateMatchConfidence (Some a) (Some c) = Inr ''high''"
  using assms
  by (cases "extractedClientId a"; cases "client_id c")
     (auto simp: calculateMatchConfidence_def try_catch_def bind_e_def get_field_def
        fields_equal_def)

lemma confidence_by_name:
  assumes "falsy (extractedClientId a)" "ci_equal (extractedClientName a) (client_name c)"
  shows "calculateMatchConfidence (Some a) (Some c) = Inr ''high''"
  using assms
  by (cases "extractedClientName a"; cases "client_name c")
     (auto simp: calculateMatchConfidence_def try_catch_def bind_e_def get_field_def
        fields_equal_def)

lemma match_by_id:
  assumes "\<forall>c\<in>set clients. string_or_absent (client_id c)"
    and "find (\<lambda>c. ci_equal (extractedClientId a) (client_id c)) clients = Some c"
  shows "matchAppointmentToClient (Some a) (Returns (Some clients)) = Inr (Some c)"
proof -
  from assms(2) have "ci_equal (extractedClientId a) (client_id c)" and "clients \<noteq> []"
    by (auto simp: find_Some_iff)
  then obtain eid where eid: "extractedClientId a = JStr eid" "eid \<noteq> []"
    by (cases "extractedClientId a"; cases "client_id c") auto
  have "find_e (id_equals (JStr eid)) clients
          = Inr (find (\<lambda>c. ci_equal (JStr eid) (client_id c)) clients)"
    using assms(1) eid(2) by (intro find_e_pure) (simp add: id_equals_ci)
  then show ?thesis
    using assms(2) eid \<open>clients \<noteq> []\<close>
    by (simp add: matchAppointmentToClient_def try_catch_def bind_e_def get_field_def)
qed

text \<open>
  Scenario 5 of the specification: the appointment parsed from the title
  \<open>Therapy Session - John Doe (C001)\<close>, matched against \<open>C002\<close> Jane and \<open>C001\<close> John Doe.
\<close>

lemma scenario_5:
  "extractClientFromTitle (JStr ''Therapy Session - John Doe (C001)'') = Inr e
   \<longrightarrow> match_appointment (Some (appointment_of e))
         (Returns (Some [\<lparr>client_id = JStr ''C002'', client_name = JStr ''Jane''\<rparr>,
                         \<lparr>client_id = JStr ''C001'', client_name = JStr ''John Doe''\<rparr>]))
       = Inr \<lparr>matchedClient = Some \<lparr>client_id = JStr ''C001'', client_name = JStr ''John Doe''\<rparr>,
               hasClientMatch = True, matchConfidence = ''high''\<rparr>"
proof
  assume a: "extractClientFromTitle (JStr ''Therapy Session - John Doe (C001)'') = Inr e"
  have "extractClientFromTitle (JStr ''Therapy Session - John Doe (C001)'')
          = Inr \<lparr>extracted_name = JStr ''John Doe'', extracted_id = ''C001''\<rparr>"
    by code_simp
  with a have e: "e = \<lparr>extracted_name = JStr ''John Doe'', extracted_id = ''C001''\<rparr>" by simp
  show "match_appointment (Some (appointment_of e))
         (Returns (Some [\<lparr>client_id = JStr ''C002'', client_name = JStr ''Jane''\<rparr>,
                         \<lparr>client_id = JStr ''C001'', client_name = JStr ''John Doe''\<rparr>]))
       = Inr \<lparr>matchedClient = Some \<lparr>client_id = JStr ''C001'', client_name = JStr ''John Doe''\<rparr>,
               hasClientMatch = True, matchConfidence = ''high''\<rparr>"
    unfolding e by code_simp
qed

text \<open>
  C1.  Let the identifiers of the candidates be strings (or missing), as the data model
  has them.  For every appointment whose \<open>extractedClientId\<close> is non-empty and equal,
  case-insensitively, to the identifier of some candidate, the match is the first such
  candidate in list order and its confidence is \<open>high\<close>.  Nothing is assumed of the name
  fields, of the appointment or of the candidates: the identifier decides before any name
  is compared.
\<close>

theorem match_by_identifier:
  assumes "\<forall>c\<in>set clients. string_or_absent (client_id c)"
    and "\<exists>c\<in>set clients. ci_equal (extractedClientId a) (client_id c)"
  shows "\<exists>c. find (\<lambda>c. ci_equal (extractedClientId a) (client_id c)) clients = Some c
            \<and> match_appointment (Some a) (Returns (Some clients))
                = Inr \<lparr>matchedClient = Some c, hasClientMatch = True,
                        matchConfidence = ''high''\<rparr>"
proof -
  from assms(2) obtain c
    where c: "find (\<lambda>c. ci_equal (extractedClientId a) (client_id c)) clients = Some c"
    by (cases "find (\<lambda>c. ci_equal (extractedClientId a) (client_id c)) clients")
       (auto simp: find_None_iff)
  then have hit: "ci_equal (extractedClientId a) (client_id c)"
    by (auto simp: find_Some_iff)
  have "match_appointment (Some a) (Returns (Some clients))
          = Inr \<lparr>matchedClient = Some c, hasClientMatch = True, matchConfidence = ''high''\<rparr>"
    using match_by_id[OF assms(1) c] confidence_by_id[OF hit]
    by (simp add: match_appointment_def try_catch_def bind_e_def)
  with c show ?thesis by blast
qed

lemma match_by_name:
  assumes "falsy (extractedClientId a)"
    and "trimmed_field (extractedClientName a)"
    and "\<forall>c\<in>set clients. string_or_absent (client_name c)"
    and "find (\<lambda>c. ci_equal (extractedClientName a) (client_name c)) clients = Some c"
  shows "matchAppointmentToClient (Some a) (Returns (Some clients)) = Inr (Some c)"
proof -
  from assms(4) have "ci_equal (extractedClientName a) (client_name c)" and "clients \<noteq> []"
    by (auto simp: find_Some_iff)
  then obtain en where en: "extractedClientName a = JStr en" "en \<noteq> []"
    by (cases "extractedClientName a"; cases "client_name c") auto
  have tr: "trim (toLowerCase en) = toLowerCase en"
    using assms(2) en(1) by (simp add: trim_toLowerCase)
  have "find_e (name_equals (toLowerCase en)) clients
          = Inr (find (\<lambda>c. ci_equal (JStr en) (client_name c)) clients)"
    using assms(3) en(2) by (intro find_e_pure) (simp add: name_equals_ci)
  then show ?thesis
    using assms(1,4) en tr \<open>clients \<noteq> []\<close>
    by (simp add: matchAppointmentToClient_def try_catch_def bind_e_def get_field_def)
qed

text \<open>
  C6 (as amended).  Let the names of the candidates be strings (or missing).  For every
  appointment with empty \<open>extractedClientId\<close> whose \<open>extractedClientName\<close> has no white
  space at either end and is equal, case-insensitively, to the name of exactly one
  candidate, the match is that candidate and the confidence is \<open>high\<close>.
\<close>

theorem match_by_exact_name:
  assumes "falsy (extractedClientId a)"
    and "trimmed_field (extractedClientName a)"
    and "\<forall>c\<in>set clients. string_or_absent (client_name c)"
    and "filter (\<lambda>c. ci_equal (extractedClientName a) (client_name c)) clients = [c]"
  shows "match_appointment (Some a) (Returns (Some clients))
           = Inr \<lparr>matchedClient = Some c, hasClientMatch = True, matchConfidence = ''high''\<rparr>"
proof -
  have f: "find (\<lambda>c. ci_equal (extractedClientName a) (client_name c)) clients = Some c"
    using assms(4) by (rule find_unique)
  then have hit: "ci_equal (extractedClientName a) (client_name c)"
    by (auto simp: find_Some_iff)
  show ?thesis
    using match_by_name[OF assms(1,2,3) f] confidence_by_name[OF assms(1) hit]
    by (simp add: match_appointment_def try_catch_def bind_e_def)
qed


text \<open>
  The theorem on three candidates: the second is the first whose identifier equals
  \<open>C001\<close> up to case, its name is not even a string, and the third would match by name.
\<close>

theorem match_by_identifier_witness:
  "match_appointment
     (Some \<lparr>extractedClientName = JStr ''John Doe'', extractedClientId = JStr ''C001''\<rparr>)
     (Returns (Some [\<lparr>client_id = JStr ''C002'', client_name = JStr ''Jane''\<rparr>,
                     \<lparr>client_id = JStr ''c001'', client_name = JNum 7\<rparr>,
                     \<lparr>client_id = JStr ''C001'', client_name = JStr ''John Doe''\<rparr>]))
   = Inr \<lparr>matchedClient = Some \<lparr>client_id = JStr ''c001'', client_name = JNum 7\<rparr>,
           hasClientMatch = True, matchConfidence = ''high''\<rparr>"
proof -
  let ?a = "\<lparr>extractedClientName = JStr ''John Doe'', extractedClientId = JStr ''C001''\<rparr>"
  let ?cs = "[\<lparr>client_id = JStr ''C002'', client_name = JStr ''Jane''\<rparr>,
              \<lparr>client_id = JStr ''c001'', client_name = JNum 7\<rparr>,
              \<lparr>client_id = JStr ''C001'', client_name = JStr ''John Doe''\<rparr>]"
  have 1: "\<forall>c\<in>set ?cs. string_or_absent (client_id c)" by code_simp
  have 2: "\<exists>c\<in>set ?cs. ci_equal (extractedClientId ?a) (client_id c)" by code_simp
  have 3: "find (\<lambda>c. ci_equal (extractedClientId ?a) (client_id c)) ?cs
             = Some \<lparr>client_id = JStr ''c001'', client_name = JNum 7\<rparr>" by code_simp
  from match_by_identifier[OF 1 2] 3 show ?thesis by auto
qed

text \<open>
  The theorem on \<open>JOHN DOE\<close> and two candidates; the first one overlaps by name only.
\<close>

theorem match_by_exact_name_witness:
  "match_appointment
     (Some \<lparr>extractedClientName = JStr ''JOHN DOE'', extractedClientId = JStr []\<rparr>)
     (Returns (Some [\<lparr>client_id = JStr ''C002'', client_name = JStr ''Johnny Doeson''\<rparr>,
                     \<lparr>client_id = JStr ''C001'', client_name = JStr ''John Doe''\<rparr>]))
   = Inr \<lparr>matchedClient = Some \<lparr>client_id = JStr ''C001'', client_name = JStr ''John Doe''\<rparr>,
           hasClientMatch = True, matchConfidence = ''high''\<rparr>"
proof -
  let ?a = "\<lparr>extractedClientName = JStr ''JOHN DOE'', extractedClientId = JStr []\<rparr>"
  let ?c = "\<lparr>client_id = JStr ''C001'', client_name = JStr ''John Doe''\<rparr>"
  let ?cs = "[\<lparr>client_id = JStr ''C002'', client_name = JStr ''Johnny Doeson''\<rparr>, ?c]"
  have 1: "falsy (extractedClientId ?a)" by simp
  have 2: "trimmed_field (extractedClientName ?a)" by code_simp
  have 3: "\<forall>c\<in>set ?cs. string_or_absent (client_name c)" by code_simp
  have 4: "filter (\<lambda>c. ci_equal (extractedClientName ?a) (client_name c)) ?cs = [?c]"
    by code_simp
  from match_by_exact_name[OF 1 2 3 4] show ?thesis .
qed

text \<open>
  C6 as stated fails when the extracted name has white space around it.  The matcher
  trims the extracted name and not the candidate's, so the one candidate with the same
  name is not found by the exact comparison, and the partial comparison returns an
  earlier candidate, scored \<open>low\<close>.
\<close>

theorem match_untrimmed_name_counterexample:
  "filter (\<lambda>c. ci_equal (JStr '' John '') (client_name c))
      [\<lparr>client_id = JStr ''C001'', client_name = JStr ''Johnny''\<rparr>,
       \<lparr>client_id = JStr ''C002'', client_name = JStr '' John ''\<rparr>]
     = [\<lparr>client_id = JStr ''C002'', client_name = JStr '' John ''\<rparr>]
   \<and> match_appointment
       (Some \<lparr>extractedClientName = JStr '' John '', extractedClientId = JStr []\<rparr>)
       (Returns (Some [\<lparr>client_id = JStr ''C001'', client_name = JStr ''Johnny''\<rparr>,
                       \<lparr>client_id = JStr ''C002'', client_name = JStr '' John ''\<rparr>]))
     = Inr \<lparr>matchedClient = Some \<lparr>client_id = JStr ''C001'', client_name = JStr ''Johnny''\<rparr>,
             hasClientMatch = True, matchConfidence = ''low''\<rparr>"
  by code_simp


lemma confidence_typed:
  assumes "string_or_absent (extractedClientId a)" "string_or_absent (extractedClientName a)"
    and "string_or_absent (client_id c)" "string_or_absent (client_name c)"
  shows "calculateMatchConfidence (Some a) (Some c)
           = Inr (if ci_equal (extractedClientId a) (client_id c)
                     \<or> ci_equal (extractedClientName a) (client_name c) then ''high''
                  else if ci_overlap (extractedClientName a) (client_name c) then ''medium''
                  else ''low'')"
proof -
  have ov: "\<not> falsy (extractedClientName a) \<and> \<not> falsy (client_name c) \<Longrightarrow>
        \<exists>x y. extractedClientName a = JStr x \<and> client_name c = JStr y \<and> x \<noteq> [] \<and> y \<noteq> []"
    using assms(2,4)
    by (cases "extractedClientName a"; cases "client_name c")
       (auto simp: string_or_absent_def)
  have no: "falsy (extractedClientName a) \<or> falsy (client_name c) \<Longrightarrow>
        \<not> ci_overlap (extractedClientName a) (client_name c)"
    by (cases "extractedClientName a"; cases "client_name c") auto
  show ?thesis
    using ov no
    by (auto simp: calculateMatchConfidence_def try_catch_def bind_e_def get_field_def
          fields_equal_ci[OF assms(1,3)] fields_equal_ci[OF assms(2,4)] includes_str_sublist)
qed

lemma no_overlap_no_match:
  assumes "\<not> blank_field (extractedClientName a)"
    and "\<forall>c\<in>set clients. \<not> ci_equal (extractedClientId a) (client_id c)
            \<and> \<not> ci_equal (trim_field (extractedClientName a)) (client_name c)
            \<and> \<not> ci_overlap (trim_field (extractedClientName a)) (client_name c)"
  shows "matchAppointmentToClient (Some a) (Returns (Some clients)) = Inr None"
proof -
  let ?eid = "extractedClientId a" and ?en = "extractedClientName a"
  have byId: "\<not> falsy ?eid \<Longrightarrow>
      find_e (id_equals ?eid) clients = Inr None \<or> (\<exists>e. find_e (id_equals ?eid) clients = Inl e)"
    using assms(2) by (intro find_e_no_hit) (auto dest: id_equals_hit)
  have byName: "?en = JStr en \<Longrightarrow> en \<noteq> [] \<Longrightarrow>
      (find_e (name_equals (trim (toLowerCase en))) clients = Inr None
        \<or> (\<exists>e. find_e (name_equals (trim (toLowerCase en))) clients = Inl e))
      \<and> (find_e (name_overlaps (trim (toLowerCase en))) clients = Inr None
        \<or> (\<exists>e. find_e (name_overlaps (trim (toLowerCase en))) clients = Inl e))" for en
  proof -
    assume en: "?en = JStr en" "en \<noteq> []"
    then have ne: "trim en \<noteq> []" using assms(1) by simp
    have tr: "trim (toLowerCase en) = toLowerCase (trim en)" by (rule trim_toLowerCase)
    have "\<forall>c\<in>set clients. name_equals (toLowerCase (trim en)) c \<noteq> Inr True"
      using assms(2) en(1) name_equals_hit[OF ne] by auto
    moreover have "\<forall>c\<in>set clients. name_overlaps (toLowerCase (trim en)) c \<noteq> Inr True"
      using assms(2) en(1) name_overlaps_hit[OF ne] by auto
    ultimately show ?thesis unfolding tr by (simp add: find_e_no_hit)
  qed
  show ?thesis
  proof (cases "?en")
    case (JStr en)
    show ?thesis
      using byId byName[OF JStr]
      by (auto simp: matchAppointmentToClient_def try_catch_def bind_e_def get_field_def JStr
            split: sum.splits option.splits)
  qed (use byId in \<open>auto simp: matchAppointmentToClient_def try_catch_def bind_e_def
         get_field_def split: sum.splits option.splits\<close>)
qed

text \<open>
  C4 (as amended).  The confidence of an externally supplied pair is \<open>none\<close> when the
  client is absent.  For a pair whose fields are strings (or missing) it is \<open>high\<close> when
  the identifiers or the names match exactly, case-insensitively; \<open>medium\<close> when one name
  contains the other, case-insensitively; \<open>low\<close> otherwise.  In the search the extracted
  name counts without the white space at its ends: for an appointment whose
  \<open>extractedClientName\<close> is not blank, and candidates none of which matches the
  identifier or matches or overlaps the trimmed name, the match is no client and the
  confidence is \<open>none\<close>.
\<close>

theorem confidence_rules:
  "calculateMatchConfidence appt None = Inr ''none''
   \<and> (string_or_absent (extractedClientId a) \<and> string_or_absent (extractedClientName a)
        \<and> string_or_absent (client_id c) \<and> string_or_absent (client_name c) \<longrightarrow>
       calculateMatchConfidence (Some a) (Some c)
         = Inr (if ci_equal (extractedClientId a) (client_id c)
                   \<or> ci_equal (extractedClientName a) (client_name c) then ''high''
                else if ci_overlap (extractedClientName a) (client_name c) then ''medium''
                else ''low''))
   \<and> (\<not> blank_field (extractedClientName a)
        \<and> (\<forall>c\<in>set clients. \<not> ci_equal (extractedClientId a) (client_id c)
              \<and> \<not> ci_equal (trim_field (extractedClientName a)) (client_name c)
              \<and> \<not> ci_overlap (trim_field (extractedClientName a)) (client_name c)) \<longrightarrow>
       match_appointment (Some a) (Returns (Some clients))
         = Inr \<lparr>matchedClient = None, hasClientMatch = False, matchConfidence = ''none''\<rparr>)"
proof -
  have 1: "calculateMatchConfidence appt None = Inr ''none''"
    by (simp add: calculateMatchConfidence_def)
  have 3: "match_appointment (Some a) (Returns (Some clients))
         = Inr \<lparr>matchedClient = None, hasClientMatch = False, matchConfidence = ''none''\<rparr>"
    if "\<not> blank_field (extractedClientName a)"
      and "\<forall>c\<in>set clients. \<not> ci_equal (extractedClientId a) (client_id c)
              \<and> \<not> ci_equal (trim_field (extractedClientName a)) (client_name c)
              \<and> \<not> ci_overlap (trim_field (extractedClientName a)) (client_name c)"
    using no_overlap_no_match[OF that]
    by (simp add: match_appointment_def try_catch_def bind_e_def calculateMatchConfidence_def)
  show ?thesis using 1 confidence_typed[of a c] 3 by blast
qed

text \<open>
  The theorem on the padded name \<open>Jo\<close>: a pair that overlaps by name only, and a list of
  one candidate without any overlap.
\<close>

theorem confidence_rules_witness:
  "calculateMatchConfidence
      (Some \<lparr>extractedClientName = JStr '' Jo '', extractedClientId = JStr ''X9''\<rparr>)
      (Some \<lparr>client_id = JStr ''C001'', client_name = JStr ''Mary Jo Roe''\<rparr>) = Inr ''medium''
   \<and> match_appointment
        (Some \<lparr>extractedClientName = JStr '' Jo '', extractedClientId = JStr ''X9''\<rparr>)
        (Returns (Some [\<lparr>client_id = JStr ''C002'', client_name = JStr ''Jane''\<rparr>]))
      = Inr \<lparr>matchedClient = None, hasClientMatch = False, matchConfidence = ''none''\<rparr>"
proof -
  let ?a = "\<lparr>extractedClientName = JStr '' Jo '', extractedClientId = JStr ''X9''\<rparr>"
  let ?c = "\<lparr>client_id = JStr ''C001'', client_name = JStr ''Mary Jo Roe''\<rparr>"
  let ?cs = "[\<lparr>client_id = JStr ''C002'', client_name = JStr ''Jane''\<rparr>]"
  have 1: "string_or_absent (extractedClientId ?a) \<and> string_or_absent (extractedClientName ?a)
        \<and> string_or_absent (client_id ?c) \<and> string_or_absent (client_name ?c)"
    by code_simp
  have 2: "\<not> ci_equal (extractedClientId ?a) (client_id ?c)"
    "\<not> ci_equal (extractedClientName ?a) (client_name ?c)"
    "ci_overlap (extractedClientName ?a) (client_name ?c)"
    by code_simp+
  have 3: "\<not> blank_field (extractedClientName ?a)" by code_simp
  have 4: "\<forall>c\<in>set ?cs. \<not> ci_equal (extractedClientId ?a) (client_id c)
              \<and> \<not> ci_equal (trim_field (extractedClientName ?a)) (client_name c)
              \<and> \<not> ci_overlap (trim_field (extractedClientName ?a)) (client_name c)"
    by code_simp
  from confidence_rules[of None ?a ?c ?cs] 1 2 3 4 show ?thesis by simp
qed

text \<open>
  C4 as stated fails for an extracted name with white space around it.  The padded
  \<open>Jo\<close> and the name \<open>xjox\<close> do not contain one another, so the pair is scored \<open>low\<close>; but
  the search trims the extracted name, finds it inside \<open>xjox\<close> and returns that candidate.
\<close>

theorem match_padded_name_counterexample:
  "\<not> ci_equal (JStr []) (JStr ''C001'')
   \<and> \<not> ci_equal (JStr '' Jo '') (JStr ''xjox'')
   \<and> \<not> ci_overlap (JStr '' Jo '') (JStr ''xjox'')
   \<and> match_appointment
        (Some \<lparr>extractedClientName = JStr '' Jo '', extractedClientId = JStr []\<rparr>)
        (Returns (Some [\<lparr>client_id = JStr ''C001'', client_name = JStr ''xjox''\<rparr>]))
      = Inr \<lparr>matchedClient = Some \<lparr>client_id = JStr ''C001'', client_name = JStr ''xjox''\<rparr>,
              hasClientMatch = True, matchConfidence = ''low''\<rparr>"
  by code_simp

text \<open>
  A blank extracted name, as the title of one space gives it, passes the test for an
  empty name (line 621) and is trimmed to the empty string only afterwards (line 622).
  Every name contains the empty string, so the first named candidate is returned.
\<close>

lemma blank_name_links_first_client:
  "extractClientFromTitle (JStr '' '') = Inr \<lparr>extracted_name = JStr '' '', extracted_id = []\<rparr>
   \<and> match_appointment
        (Some \<lparr>extractedClientName = JStr '' '', extractedClientId = JStr []\<rparr>)
        (Returns (Some [\<lparr>client_id = JStr ''C002'', client_name = JStr ''Jane''\<rparr>]))
      = Inr \<lparr>matchedClient = Some \<lparr>client_id = JStr ''C002'', client_name = JStr ''Jane''\<rparr>,
              hasClientMatch = True, matchConfidence = ''low''\<rparr>"
  by code_simp


section \<open>Exceptions\<close>

text \<open>
  A \<open>try\<close> whose handler returns a value returns a value.  Every operation of
  PipeDelimitedHelpers and of the matcher is such a \<open>try\<close>.
\<close>

lemma try_catch_total:
  "(\<And>e. \<exists>v. handler e = Inr v) \<Longrightarrow> \<exists>v. try_catch body handler = Inr v"
  by (cases body) (auto simp: try_catch_def)

lemma parse_not_string: "falsy d \<or> \<not> is_string d \<Longrightarrow> parse d t = Inr []"
  by (cases d) (auto simp: parse_def try_catch_def)

lemma stringify_total: "\<exists>r. stringify v t = Inr r"
  unfolding stringify_def by (rule try_catch_total) simp

lemma stringify_not_array: "\<not> is_array v \<Longrightarrow> stringify v t = Inr []"
  by (cases v) (auto simp: stringify_def try_catch_def)

lemma addItem_total: "\<exists>r. addItem d i b = Inr r"
  unfolding addItem_def by (rule try_catch_total) simp

lemma addItem_not_string: "falsy i \<or> \<not> is_string i \<Longrightarrow> addItem d i b = Inr (or_empty d)"
  by (auto simp: addItem_def try_catch_def)

lemma removeItem_total: "\<exists>r. removeItem d x = Inr r"
  unfolding removeItem_def by (rule try_catch_total) simp

lemma removeItem_degrades:
  "falsy d \<or> falsy x \<or> \<not> is_string x \<Longrightarrow> removeItem d x = Inr (or_empty d)"
  using removeItem_guard[of d x] removeItem_not_string[of d x]
  by (auto simp: or_empty_def)

lemma updateItem_total: "\<exists>r. updateItem d old new = Inr r"
  unfolding updateItem_def by (rule try_catch_total) simp

lemma js_trim_not_string: "\<not> is_string x \<Longrightarrow> js_trim x = Inl TypeError"
  by (cases x) auto

lemma updateItem_degrades:
  "falsy d \<or> falsy old \<or> falsy new \<or> \<not> is_string old \<or> \<not> is_string new
     \<Longrightarrow> updateItem d old new = Inr (or_empty d)"
  using parse_total[of d True]
  by (cases "js_trim old")
     (auto simp: updateItem_def try_catch_def bind_e_def js_trim_not_string)

lemma reorderItems_total: "\<exists>r. reorderItems d order = Inr r"
  unfolding reorderItems_def by (rule try_catch_total) simp

lemma reorderItems_degrades:
  "falsy d \<or> \<not> is_array order \<Longrightarrow> reorderItems d order = Inr (or_empty d)"
  by (cases order) (auto simp: reorderItems_def try_catch_def)

lemma contains_total: "\<exists>r. contains d i = Inr r"
  unfolding contains_def by (rule try_catch_total) (rule exI, rule refl)

lemma contains_degrades:
  "falsy d \<or> falsy i \<or> \<not> is_string i \<Longrightarrow> contains d i = Inr False"
  using parse_total[of d True]
  by (auto simp: contains_def try_catch_def bind_e_def js_trim_not_string)

lemma getCount_total: "\<exists>r. getCount d = Inr r"
  unfolding getCount_def by (rule try_catch_total) simp

lemma getCount_degrades: "falsy d \<or> \<not> is_string d \<Longrightarrow> getCount d = Inr 0"
  by (auto simp: getCount_def try_catch_def bind_e_def parse_not_string)

lemma merge_total: "\<exists>r. merge ds b = Inr r"
  unfolding merge_def by (rule try_catch_total) simp

lemma merge_not_array: "\<not> is_array ds \<Longrightarrow> merge ds b = Inr []"
  by (cases ds) (auto simp: merge_def try_catch_def)

lemma validate_total: "\<exists>r. validate d = Inr r"
  unfolding validate_def by (rule try_catch_total) simp

lemma validate_absent:
  "falsy d \<Longrightarrow> validate d
     = Inr \<lparr>valid = True, itemCount = 0, uniqueItemCount = None, issues = []\<rparr>"
  by (simp add: validate_def try_catch_def)

lemma clean_total: "\<exists>r. clean d opts = Inr r"
  unfolding clean_def by (rule try_catch_total) simp

lemma clean_absent: "falsy d \<Longrightarrow> clean d opts = Inr (JStr [])"
  by (simp add: clean_def try_catch_def)

lemma extract_total: "\<exists>r. extractClientFromTitle title = Inr r"
  unfolding extractClientFromTitle_def by (rule try_catch_total) simp

lemma extract_not_string:
  "\<not> is_string title \<Longrightarrow> extractClientFromTitle title
     = Inr \<lparr>extracted_name = title, extracted_id = []\<rparr>"
  by (cases title) (auto simp: extractClientFromTitle_def try_catch_def)

lemma matchAppointmentToClient_total: "\<exists>r. matchAppointmentToClient appt src = Inr r"
  unfolding matchAppointmentToClient_def by (rule try_catch_total) simp

lemma matchAppointmentToClient_absent:
  "appt = None \<or> src = NotDefined \<or> src = Raises e \<or> src = Returns None
     \<or> src = Returns (Some [])
   \<Longrightarrow> matchAppointmentToClient appt src = Inr None"
  by (cases src rule: client_lookup.exhaust)
     (auto simp: matchAppointmentToClient_def try_catch_def bind_e_def get_field_def
        split: option.splits)

lemma confidence_total: "\<exists>r. calculateMatchConfidence appt cl = Inr r"
proof (cases cl)
  case None
  then show ?thesis by (simp add: calculateMatchConfidence_def)
next
  case (Some c)
  have "\<exists>r. try_catch body (\<lambda>e. Inr ''low'') = Inr r" for body :: "error + string"
    by (rule try_catch_total) simp
  then show ?thesis by (simp add: calculateMatchConfidence_def Some)
qed

lemma match_appointment_total: "\<exists>r. match_appointment appt src = Inr r"
  unfolding match_appointment_def by (rule try_catch_total) simp

lemma match_appointment_absent:
  "appt = None \<or> src = NotDefined \<or> src = Raises e \<or> src = Returns None
     \<or> src = Returns (Some [])
   \<Longrightarrow> match_appointment appt src
         = Inr \<lparr>matchedClient = None, hasClientMatch = False, matchConfidence = ''none''\<rparr>"
  using matchAppointmentToClient_absent[of appt src e]
  by (simp add: match_appointment_def try_catch_def bind_e_def calculateMatchConfidence_def)


lemma addGoal_empty:
  "falsy goalText \<or> js_trim goalText = Inr [] \<Longrightarrow>
     addGoal goalText getGoals setGoals
       = Inl (Error ''Failed to add goal: Goal text cannot be empty'')"
  by (auto simp: addGoal_def try_catch_def bind_e_def)

text \<open>
  C5 (as amended).  No operation of PipeDelimitedHelpers and none of the matcher raises,
  for any input.  Malformed or absent input (a text that is not a string, an argument
  that is not an array, empty or missing fields, an absent appointment or client list)
  degrades to an empty or neutral result: the empty sequence, the empty text, the original
  data unchanged, \<open>false\<close>, the count 0, no client, the confidence \<open>none\<close>.
  \<open>GoalManagementService.addGoal\<close>, however, signals an empty goal text by raising.
\<close>

theorem operations_never_raise:
  "(\<exists>r. parse data t = Inr r)
   \<and> (falsy data \<or> \<not> is_string data \<longrightarrow> parse data t = Inr [])
   \<and> (\<exists>r. stringify items t = Inr r)
   \<and> (\<not> is_array items \<longrightarrow> stringify items t = Inr [])
   \<and> (\<exists>r. addItem data item b = Inr r)
   \<and> (falsy item \<or> \<not> is_string item \<longrightarrow> addItem data item b = Inr (or_empty data))
   \<and> (\<exists>r. removeItem data item = Inr r)
   \<and> (falsy data \<or> falsy item \<or> \<not> is_string item
        \<longrightarrow> removeItem data item = Inr (or_empty data))
   \<and> (\<exists>r. updateItem data old new = Inr r)
   \<and> (falsy data \<or> falsy old \<or> falsy new \<or> \<not> is_string old \<or> \<not> is_string new
        \<longrightarrow> updateItem data old new = Inr (or_empty data))
   \<and> (\<exists>r. reorderItems data order = Inr r)
   \<and> (falsy data \<or> \<not> is_array order \<longrightarrow> reorderItems data order = Inr (or_empty data))
   \<and> (\<exists>r. contains data item = Inr r)
   \<and> (falsy data \<or> falsy item \<or> \<not> is_string item \<longrightarrow> contains data item = Inr False)
   \<and> (\<exists>r. getCount data = Inr r)
   \<and> (falsy data \<or> \<not> is_string data \<longrightarrow> getCount data = Inr 0)
   \<and> (\<exists>r. merge items b = Inr r)
   \<and> (\<not> is_array items \<longrightarrow> merge items b = Inr [])
   \<and> (\<exists>r. validate data = Inr r)
   \<and> (falsy data \<longrightarrow> validate data
         = Inr \<lparr>valid = True, itemCount = 0, uniqueItemCount = None, issues = []\<rparr>)
   \<and> (\<exists>r. clean data opts = Inr r)
   \<and> (falsy data \<longrightarrow> clean data opts = Inr (JStr []))
   \<and> (\<exists>r. extractClientFromTitle title = Inr r)
   \<and> (\<not> is_string title \<longrightarrow> extractClientFromTitle title
         = Inr \<lparr>extracted_name = title, extracted_id = []\<rparr>)
   \<and> (\<exists>r. matchAppointmentToClient appt src = Inr r)
   \<and> (appt = None \<or> src = NotDefined \<or> src = Raises e \<or> src = Returns None
          \<or> src = Returns (Some [])
        \<longrightarrow> matchAppointmentToClient appt src = Inr None)
   \<and> (\<exists>r. calculateMatchConfidence appt cl = Inr r)
   \<and> calculateMatchConfidence appt None = Inr ''none''
   \<and> (\<exists>r. match_appointment appt src = Inr r)
   \<and> (appt = None \<or> src = NotDefined \<or> src = Raises e \<or> src = Returns None
          \<or> src = Returns (Some [])
        \<longrightarrow> match_appointment appt src
            = Inr \<lparr>matchedClient = None, hasClientMatch = False, matchConfidence = ''none''\<rparr>)
   \<and> (falsy goalText \<or> js_trim goalText = Inr []
        \<longrightarrow> addGoal goalText getGoals setGoals
            = Inl (Error ''Failed to add goal: Goal text cannot be empty''))"
proof -
  note total = parse_total stringify_total addItem_total removeItem_total updateItem_total
    reorderItems_total contains_total getCount_total merge_total validate_total clean_total
    extract_total matchAppointmentToClient_total confidence_total match_appointment_total
  have none: "calculateMatchConfidence appt None = Inr ''none''"
    by (simp add: calculateMatchConfidence_def)
  show ?thesis
    by (intro conjI impI total none parse_not_string stringify_not_array addItem_not_string
        removeItem_degrades updateItem_degrades reorderItems_degrades contains_degrades
        getCount_degrades merge_not_array validate_absent clean_absent extract_not_string
        matchAppointmentToClient_absent match_appointment_absent addGoal_empty)
qed

text \<open>
  The theorem at inputs of the wrong type: a number for the text, an array or
  \<open>undefined\<close> for an item, \<open>null\<close> for an array, no appointment, a blank goal.
\<close>

theorem operations_never_raise_witness:
  "parse (JNum 5) True = Inr []
   \<and> stringify JNull True = Inr []
   \<and> addItem (JNum 5) (JArr []) False = Inr (JNum 5)
   \<and> removeItem (JNum 5) (JArr []) = Inr (JNum 5)
   \<and> updateItem (JNum 5) (JStr ''A'') JUndefined = Inr (JNum 5)
   \<and> reorderItems (JNum 5) (JObj ''[object Object]'') = Inr (JNum 5)
   \<and> contains (JNum 5) (JArr []) = Inr False
   \<and> getCount (JNum 5) = Inr 0
   \<and> merge JNull False = Inr []
   \<and> validate JNull
        = Inr \<lparr>valid = True, itemCount = 0, uniqueItemCount = None, issues = []\<rparr>
   \<and> clean JNull
        \<lparr>removeDuplicates = True, removeEmpty = True, trimItems = True,
          removeLineBreaks = True\<rparr> = Inr (JStr [])
   \<and> extractClientFromTitle JUndefined
        = Inr \<lparr>extracted_name = JUndefined, extracted_id = []\<rparr>
   \<and> matchAppointmentToClient None
        (Returns (Some [\<lparr>client_id = JStr ''C001'', client_name = JStr ''John Doe''\<rparr>]))
        = Inr None
   \<and> match_appointment None
        (Returns (Some [\<lparr>client_id = JStr ''C001'', client_name = JStr ''John Doe''\<rparr>]))
        = Inr \<lparr>matchedClient = None, hasClientMatch = False, matchConfidence = ''none''\<rparr>
   \<and> addGoal (JStr '' '') (Inr []) None
        = Inl (Error ''Failed to add goal: Goal text cannot be empty'')"
proof -
  let ?opts = "\<lparr>removeDuplicates = True, removeEmpty = True, trimItems = True,
                 removeLineBreaks = True\<rparr>"
  let ?src = "Returns (Some [\<lparr>client_id = JStr ''C001'', client_name = JStr ''John Doe''\<rparr>])"
  have a: "or_empty (JNum 5) = JNum 5" by (simp add: or_empty_def)
  have b: "trim '' '' = []" by code_simp
  from operations_never_raise[of "JNum 5" True JNull "JArr []" False "JStr ''A''" JUndefined
      "JObj ''[object Object]''" ?opts JUndefined None ?src TypeError None "JStr '' ''"
      "Inr []" None]
  have 1: "parse (JNum 5) True = Inr []"
    and 2: "stringify JNull True = Inr []"
    and 3: "addItem (JNum 5) (JArr []) False = Inr (JNum 5)"
    and 4: "removeItem (JNum 5) (JArr []) = Inr (JNum 5)"
    and 5: "updateItem (JNum 5) (JStr ''A'') JUndefined = Inr (JNum 5)"
    and 6: "reorderItems (JNum 5) (JObj ''[object Object]'') = Inr (JNum 5)"
    and 7: "contains (JNum 5) (JArr []) = Inr False"
    and 8: "getCount (JNum 5) = Inr 0"
    and 9: "merge JNull False = Inr []"
    and 10: "extractClientFromTitle JUndefined
        = Inr \<lparr>extracted_name = JUndefined, extracted_id = []\<rparr>"
    and 11: "matchAppointmentToClient None ?src = Inr None"
    and 12: "match_appointment None ?src
        = Inr \<lparr>matchedClient = None, hasClientMatch = False, matchConfidence = ''none''\<rparr>"
    and 15: "addGoal (JStr '' '') (Inr []) None
        = Inl (Error ''Failed to add goal: Goal text cannot be empty'')"
    by (simp_all add: a b)
  from operations_never_raise[of JNull True JNull "JArr []" False "JStr ''A''" JUndefined
      "JObj ''[object Object]''" ?opts JUndefined None ?src TypeError None]
  have 13: "validate JNull
        = Inr \<lparr>valid = True, itemCount = 0, uniqueItemCount = None, issues = []\<rparr>"
    and 14: "clean JNull ?opts = Inr (JStr [])"
    by simp_all
  show ?thesis by (intro conjI 1 2 3 4 5 6 7 8 9 10 11 12 13 14 15)
qed


text \<open>
  C5 as stated fails on the goal operations: \<open>addGoal\<close> raises for an empty goal text
  and for a goal that the client already has, up to case.
\<close>

theorem addGoal_raises_counterexample:
  "addGoal (JStr []) (Inr [''Sleep better'']) None
     = Inl (Error ''Failed to add goal: Goal text cannot be empty'')
   \<and> addGoal (JStr ''sleep better '') (Inr [''Sleep better'']) None
     = Inl (Error ''Failed to add goal: This goal already exists for the client'')"
  by code_simp


section \<open>Title parsing\<close>














































end
